theory Spec2Isabelle
  imports Complex_Main
begin

section \<open>Data model\<close>

text \<open>
  A reading is the dictionary built by \<open>read_sensor_data\<close> and annotated by the later
  stages of the pipeline. Every key is optional in a dictionary, so every field is an
  option: \<open>None\<close> is an absent key. The key \<open>value\<close> is the field \<open>rvalue\<close> and the key
  \<open>unit\<close> is the field \<open>runit\<close>. Python floats are idealised as reals, time stamps as
  natural numbers.
\<close>

record reading =
  timestamp :: "nat option"
  machine_id :: "string option"
  sensor_type :: "string option"
  location :: "string option"
  rvalue :: "real option"
  runit :: "string option"
  quality :: "int option"
  status :: "string option"
  anomaly :: "string option"
  processed_at :: "nat option"
  moving_average :: "real option"
  deviation_from_avg :: "real option"
  high_deviation :: "bool option"
  processing_version :: "string option"
  daq_system_id :: "string option"

text \<open>The fields of \<open>DAQConfig\<close> (config.py) that the pipeline reads.\<close>

record daq_config =
  cfg_machine_id :: string
  cfg_location :: string
  acquisition_interval :: real
  batch_size :: int
  temperature_max :: real
  temperature_min :: real
  pressure_max :: real
  pressure_min :: real
  vibration_max :: real
  min_quality_threshold :: int
  max_buffer_size :: int

definition default_daq :: daq_config where
  "default_daq = \<lparr> cfg_machine_id = ''MACHINE_001'', cfg_location = ''Plant_A_Line_1'',
     acquisition_interval = 5, batch_size = 10, temperature_max = 40, temperature_min = 18,
     pressure_max = 2, pressure_min = 9 / 10, vibration_max = 5 / 2,
     min_quality_threshold = 80, max_buffer_size = 1000 \<rparr>"

datatype py_error = KeyError string | ZeroDivisionError

section \<open>Validation (main.py, validate_readings)\<close>

text \<open>\<open>reading.get('quality', 100)\<close>\<close>

definition quality_of :: "reading \<Rightarrow> int" where
  "quality_of r = (case quality r of None \<Rightarrow> 100 | Some q \<Rightarrow> q)"

text \<open>
  The body of the \<open>try\<close> block for one reading. \<open>Inl e\<close>: an exception was raised (the
  handler logs it and goes on to the next reading); \<open>Inr None\<close>: the quality gate ran
  \<open>continue\<close>; \<open>Inr (Some r)\<close>: \<open>r\<close> is appended to \<open>validated\<close>.
\<close>

definition validate_one :: "daq_config \<Rightarrow> reading \<Rightarrow> py_error + reading option" where
  "validate_one cfg r =
    (case sensor_type r of
       None \<Rightarrow> Inl (KeyError ''sensor_type'')
     | Some st \<Rightarrow>
        (case rvalue r of
           None \<Rightarrow> Inl (KeyError ''value'')
         | Some v \<Rightarrow>
            if quality_of r < min_quality_threshold cfg then Inr None
            else if st = ''temperature'' then
              (if \<not> (temperature_min cfg \<le> v \<and> v \<le> temperature_max cfg)
               then Inr (Some (r\<lparr>anomaly := Some ''OUT_OF_RANGE''\<rparr>))
               else Inr (Some r))
            else if st = ''pressure'' then
              (if \<not> (pressure_min cfg \<le> v \<and> v \<le> pressure_max cfg)
               then Inr (Some (r\<lparr>anomaly := Some ''OUT_OF_RANGE''\<rparr>))
               else Inr (Some r))
            else if st = ''vibration'' then
              (if v > vibration_max cfg
               then Inr (Some (r\<lparr>anomaly := Some ''HIGH_VIBRATION''\<rparr>))
               else Inr (Some r))
            else Inr (Some r)))"

text \<open>The \<open>for\<close> loop, with the list \<open>validated\<close> as accumulator.\<close>

fun validate_loop :: "daq_config \<Rightarrow> reading list \<Rightarrow> reading list \<Rightarrow> reading list" where
  "validate_loop cfg [] validated = validated"
| "validate_loop cfg (r # rs) validated =
     (case validate_one cfg r of
        Inr (Some r') \<Rightarrow> validate_loop cfg rs (validated @ [r'])
      | Inr None \<Rightarrow> validate_loop cfg rs validated
      | Inl e \<Rightarrow> validate_loop cfg rs validated)"

definition validate_readings :: "daq_config \<Rightarrow> reading list \<Rightarrow> reading list" where
  "validate_readings cfg readings = validate_loop cfg readings []"

section \<open>Processing (main.py, process_readings and calculate_moving_average)\<close>

text \<open>
  The state of \<open>IndustrialDAQSystem\<close>. Of the \<open>stats\<close> dictionary the counters are kept;
  they start at 0 and are only ever incremented. The entries derived from the wall clock
  (start time, uptime, cycle durations) are left out.
\<close>

record daq_stats =
  total_cycles :: nat
  successful_cycles :: nat
  failed_cycles :: nat
  total_data_points :: nat
  anomalies_detected :: nat

text \<open>
  The description of an anomaly is a message formatted from numbers and names; the model
  keeps which message it is and what is formatted into it.
\<close>

datatype description =
    OutOfRangeText real string
  | HighVibrationText real
  | LowQualityText int
  | GenericText string
  | DeviationText real
  | RapidChangeText real string

record anomaly_record =
  a_timestamp :: nat
  a_machine_id :: string
  a_sensor_type :: string
  a_value :: real
  anomaly_type :: string
  severity :: string
  description :: description

record daq_system =
  running :: bool
  paused :: bool
  stats :: daq_stats
  data_history :: "reading list"
  anomaly_buffer :: "anomaly_record list"

text \<open>Python's \<open>xs[i:]\<close>: a negative index counts from the end and is clamped at 0.\<close>

definition py_slice_from :: "int \<Rightarrow> 'a list \<Rightarrow> 'a list" where
  "py_slice_from i xs =
     (if i < 0 then drop (nat (int (length xs) + i)) xs else drop (nat i) xs)"

text \<open>
  \<open>[point['value'] for point in history if point.get('sensor_type') == sensor_type]\<close>:
  a matching point without the key \<open>value\<close> raises.
\<close>

fun history_values :: "reading list \<Rightarrow> string \<Rightarrow> py_error + real list" where
  "history_values [] st = Inr []"
| "history_values (point # points) st =
     (if sensor_type point = Some st then
        (case rvalue point of
           None \<Rightarrow> Inl (KeyError ''value'')
         | Some v \<Rightarrow>
            (case history_values points st of
               Inl e \<Rightarrow> Inl e
             | Inr vs \<Rightarrow> Inr (v # vs)))
      else history_values points st)"

definition calculate_moving_average ::
  "reading list \<Rightarrow> string \<Rightarrow> real \<Rightarrow> int \<Rightarrow> py_error + real" where
  "calculate_moving_average history st current_value window =
     (case history_values history st of
        Inl e \<Rightarrow> Inl e
      | Inr vs \<Rightarrow>
         (let sensor_history = vs @ [current_value];
              recent_values = py_slice_from (- window) sensor_history
          in if recent_values \<noteq> []
             then Inr (sum_list recent_values / real (length recent_values))
             else Inr current_value))"

text \<open>
  The body of the \<open>try\<close> block of \<open>process_readings\<close> for one reading, at time \<open>now\<close>.
  \<open>if moving_avg:\<close> is false for an average of 0.
\<close>

definition process_one :: "reading list \<Rightarrow> nat \<Rightarrow> reading \<Rightarrow> py_error + reading" where
  "process_one history now r =
     (case sensor_type r of
        None \<Rightarrow> Inl (KeyError ''sensor_type'')
      | Some st \<Rightarrow>
         (case rvalue r of
            None \<Rightarrow> Inl (KeyError ''value'')
          | Some v \<Rightarrow>
             (case calculate_moving_average history st v 5 of
                Inl e \<Rightarrow> Inl e
              | Inr moving_avg \<Rightarrow>
                 (let p1 = r\<lparr>processed_at := Some now, moving_average := Some moving_avg\<rparr>;
                      p2 = (if moving_avg \<noteq> 0 then
                              (let deviation = \<bar>v - moving_avg\<bar>;
                                   p = p1\<lparr>deviation_from_avg := Some deviation\<rparr>
                               in if deviation > moving_avg * (1 / 10)
                                  then p\<lparr>high_deviation := Some True\<rparr> else p)
                            else p1)
                  in Inr (p2\<lparr>processing_version := Some ''1.0'',
                               daq_system_id := Some ''DAQ_001''\<rparr>)))))"

text \<open>
  The \<open>for\<close> loop: on an exception the handler appends the original reading. The history
  is only extended after the loop; \<open>clock i\<close> is the time read in iteration \<open>i\<close>.
\<close>

fun process_loop ::
  "reading list \<Rightarrow> (nat \<Rightarrow> nat) \<Rightarrow> reading list \<Rightarrow> reading list \<Rightarrow> reading list" where
  "process_loop history clock [] processed = processed"
| "process_loop history clock (r # rs) processed =
     (case process_one history (clock (length processed)) r of
        Inr p \<Rightarrow> process_loop history clock rs (processed @ [p])
      | Inl e \<Rightarrow> process_loop history clock rs (processed @ [r]))"

definition process_readings ::
  "daq_system \<Rightarrow> (nat \<Rightarrow> nat) \<Rightarrow> reading list \<Rightarrow> reading list \<times> daq_system" where
  "process_readings s clock readings =
     (let processed = process_loop (data_history s) clock readings [];
          h = data_history s @ processed;
          h' = (if length h > 1000 then py_slice_from (- 1000) h else h)
      in (processed, s\<lparr>data_history := h'\<rparr>))"

section \<open>Anomaly detection (main.py, detect_anomalies)\<close>

text \<open>\<open>thresholds.get(sensor_type, 1.0)\<close>\<close>

definition thresholds :: "string \<Rightarrow> real" where
  "thresholds st =
     (if st = ''temperature'' then 5
      else if st = ''pressure'' then 3 / 10
      else if st = ''vibration'' then 5 / 10
      else 1)"

text \<open>
  \<open>_detect_rapid_change\<close> returns \<open>None\<close> or a message formatted from the change rate and
  the unit; the model returns these two instead of the message.
\<close>

definition detect_rapid_change ::
  "reading list \<Rightarrow> reading \<Rightarrow> py_error + (real \<times> string) option" where
  "detect_rapid_change history r =
     (case sensor_type r of
        None \<Rightarrow> Inl (KeyError ''sensor_type'')
      | Some st \<Rightarrow>
         (case rvalue r of
            None \<Rightarrow> Inl (KeyError ''value'')
          | Some current_value \<Rightarrow>
             (case history_values (py_slice_from (- 10) history) st of
                Inl e \<Rightarrow> Inl e
              | Inr previous_values \<Rightarrow>
                 if length previous_values \<ge> 2 then
                   (let last_value = last previous_values;
                        change_rate = \<bar>current_value - last_value\<bar>
                    in if change_rate > thresholds st then
                         (case runit r of
                            None \<Rightarrow> Inl (KeyError ''unit'')
                          | Some u \<Rightarrow> Inr (Some (change_rate, u)))
                       else Inr None)
                 else Inr None)))"

text \<open>\<open>_calculate_severity\<close>, with \<open>reading.get('anomaly', '')\<close>.\<close>

definition calculate_severity :: "reading \<Rightarrow> py_error + string" where
  "calculate_severity r =
     (let anomaly_t = (case anomaly r of None \<Rightarrow> [] | Some a \<Rightarrow> a) in
      case sensor_type r of
        None \<Rightarrow> Inl (KeyError ''sensor_type'')
      | Some st \<Rightarrow>
         (case rvalue r of
            None \<Rightarrow> Inl (KeyError ''value'')
          | Some v \<Rightarrow>
             if anomaly_t = ''OUT_OF_RANGE'' then
               (if st = ''temperature'' then
                  (if v > 35 \<or> v < 20 then Inr ''HIGH'' else Inr ''MEDIUM'')
                else if st = ''pressure'' then
                  (if v > 18 / 10 \<or> v < 1 then Inr ''HIGH'' else Inr ''MEDIUM'')
                else Inr ''LOW'')
             else if anomaly_t = ''HIGH_VIBRATION'' then
               (if v > 2 then Inr ''CRITICAL'' else Inr ''HIGH'')
             else Inr ''LOW''))"

text \<open>
  \<open>_get_anomaly_description\<close>: the dictionary of messages is built before the lookup, so
  the keys \<open>value\<close> and \<open>unit\<close> are read whatever the anomaly type is.
\<close>

definition get_anomaly_description :: "string \<Rightarrow> reading \<Rightarrow> py_error + description" where
  "get_anomaly_description anomaly_t r =
     (case rvalue r of
        None \<Rightarrow> Inl (KeyError ''value'')
      | Some v \<Rightarrow>
         (case runit r of
            None \<Rightarrow> Inl (KeyError ''unit'')
          | Some u \<Rightarrow>
             if anomaly_t = ''OUT_OF_RANGE'' then Inr (OutOfRangeText v u)
             else if anomaly_t = ''HIGH_VIBRATION'' then Inr (HighVibrationText v)
             else if anomaly_t = ''LOW_QUALITY''
               then Inr (LowQualityText (case quality r of None \<Rightarrow> 0 | Some q \<Rightarrow> q))
             else Inr (GenericText anomaly_t)))"

text \<open>
  The four entries every anomaly dictionary starts with, read in this order:
  \<open>reading['timestamp']\<close>, \<open>reading['machine_id']\<close>, \<open>reading['sensor_type']\<close>,
  \<open>reading['value']\<close>.
\<close>

definition anomaly_base ::
  "reading \<Rightarrow> string \<Rightarrow> string \<Rightarrow> description \<Rightarrow> py_error + anomaly_record" where
  "anomaly_base r ty sev descr =
     (case timestamp r of
        None \<Rightarrow> Inl (KeyError ''timestamp'')
      | Some t \<Rightarrow>
         (case machine_id r of
            None \<Rightarrow> Inl (KeyError ''machine_id'')
          | Some m \<Rightarrow>
             (case sensor_type r of
                None \<Rightarrow> Inl (KeyError ''sensor_type'')
              | Some st \<Rightarrow>
                 (case rvalue r of
                    None \<Rightarrow> Inl (KeyError ''value'')
                  | Some v \<Rightarrow>
                     Inr \<lparr> a_timestamp = t, a_machine_id = m, a_sensor_type = st,
                           a_value = v, anomaly_type = ty, severity = sev,
                           description = descr \<rparr>))))"

text \<open>The three parts of the \<open>try\<close> block of \<open>detect_anomalies\<close>; \<open>None\<close>: nothing to append.\<close>

definition tagged_anomaly :: "reading \<Rightarrow> py_error + anomaly_record option" where
  "tagged_anomaly r =
     (case anomaly r of
        None \<Rightarrow> Inr None
      | Some a \<Rightarrow>
         if a = [] then Inr None
         else
           (case anomaly_base r a [] (GenericText []) of
              Inl e \<Rightarrow> Inl e
            | Inr b \<Rightarrow>
               (case calculate_severity r of
                  Inl e \<Rightarrow> Inl e
                | Inr sev \<Rightarrow>
                   (case get_anomaly_description a r of
                      Inl e \<Rightarrow> Inl e
                    | Inr d \<Rightarrow> Inr (Some (b\<lparr>severity := sev, description := d\<rparr>))))))"

definition deviation_anomaly :: "reading \<Rightarrow> py_error + anomaly_record option" where
  "deviation_anomaly r =
     (if high_deviation r = Some True then
        (case anomaly_base r ''HIGH_DEVIATION'' ''MEDIUM''
                (DeviationText (case deviation_from_avg r of None \<Rightarrow> 0 | Some d \<Rightarrow> d)) of
           Inl e \<Rightarrow> Inl e
         | Inr a \<Rightarrow> Inr (Some a))
      else Inr None)"

definition rapid_change_anomaly ::
  "reading list \<Rightarrow> reading \<Rightarrow> py_error + anomaly_record option" where
  "rapid_change_anomaly history r =
     (case detect_rapid_change history r of
        Inl e \<Rightarrow> Inl e
      | Inr None \<Rightarrow> Inr None
      | Inr (Some (change_rate, u)) \<Rightarrow>
         (case anomaly_base r ''RAPID_CHANGE'' ''HIGH'' (RapidChangeText change_rate u) of
            Inl e \<Rightarrow> Inl e
          | Inr a \<Rightarrow> Inr (Some a)))"

definition appended :: "'a option \<Rightarrow> 'a list" where
  "appended a = (case a of None \<Rightarrow> [] | Some x \<Rightarrow> [x])"

text \<open>
  One reading: the anomalies appended before the block ends or an exception leaves it
  (the handler logs and goes on to the next reading).
\<close>

definition detect_one :: "reading list \<Rightarrow> reading \<Rightarrow> anomaly_record list" where
  "detect_one history r =
     (case tagged_anomaly r of
        Inl e \<Rightarrow> []
      | Inr a1 \<Rightarrow>
         (case deviation_anomaly r of
            Inl e \<Rightarrow> appended a1
          | Inr a2 \<Rightarrow>
             (case rapid_change_anomaly history r of
                Inl e \<Rightarrow> appended a1 @ appended a2
              | Inr a3 \<Rightarrow> appended a1 @ appended a2 @ appended a3)))"

fun detect_loop ::
  "reading list \<Rightarrow> reading list \<Rightarrow> anomaly_record list \<Rightarrow> anomaly_record list" where
  "detect_loop history [] anomalies = anomalies"
| "detect_loop history (r # rs) anomalies =
     detect_loop history rs (anomalies @ detect_one history r)"

definition detect_anomalies ::
  "daq_system \<Rightarrow> reading list \<Rightarrow> anomaly_record list \<times> daq_system" where
  "detect_anomalies s readings =
     (let anomalies = detect_loop (data_history s) readings []
      in if anomalies \<noteq> []
         then (anomalies,
               s\<lparr>stats := (stats s)\<lparr>anomalies_detected :=
                    anomalies_detected (stats s) + length anomalies\<rparr>\<rparr>)
         else (anomalies, s))"

section \<open>Storage (database.py)\<close>

text \<open>
  The database as the pipeline sees it: the rows inserted so far and the number of calls
  of \<open>insert_batch_readings\<close>. Whether the database can be reached and accepts an insert
  is decided by the environment.
\<close>

record database =
  rows :: "reading list"
  batch_calls :: nat

datatype db_outcome = ConnFails | ExecFails | DbOk

text \<open>The eight columns of a row.\<close>

definition row_of :: "reading \<Rightarrow> reading" where
  "row_of r = r\<lparr>anomaly := None, processed_at := None, moving_average := None,
                 deviation_from_avg := None, high_deviation := None,
                 processing_version := None, daq_system_id := None\<rparr>"

text \<open>
  \<open>insert_batch_readings\<close> writes a time stamp, a quality and a status into a dictionary
  that lacks them, before it reads the other keys.
\<close>

definition fill_defaults :: "nat \<Rightarrow> reading \<Rightarrow> reading" where
  "fill_defaults now r =
     r\<lparr>timestamp := (case timestamp r of None \<Rightarrow> Some now | Some t \<Rightarrow> Some t),
       quality := (case quality r of None \<Rightarrow> Some 100 | Some q \<Rightarrow> Some q),
       status := (case status r of None \<Rightarrow> Some ''OK'' | Some st \<Rightarrow> Some st)\<rparr>"

definition has_row_keys :: "reading \<Rightarrow> bool" where
  "has_row_keys r \<longleftrightarrow>
     machine_id r \<noteq> None \<and> sensor_type r \<noteq> None \<and> location r \<noteq> None \<and>
     rvalue r \<noteq> None \<and> runit r \<noteq> None"

text \<open>
  The loop that prepares the tuples: the readings as the loop leaves them, and whether it
  ended without a \<open>KeyError\<close>.
\<close>

fun prepare_batch :: "nat \<Rightarrow> reading list \<Rightarrow> reading list \<times> bool" where
  "prepare_batch now [] = ([], True)"
| "prepare_batch now (r # rs) =
     (if has_row_keys r
      then (case prepare_batch now rs of (rs', ok) \<Rightarrow> (fill_defaults now r # rs', ok))
      else (fill_defaults now r # rs, False))"

text \<open>
  The result is the number of inserted rows, the readings as the call leaves them (they
  are the caller's dictionaries) and the database.
\<close>

definition insert_batch_readings ::
  "db_outcome \<Rightarrow> nat \<Rightarrow> database \<Rightarrow> reading list \<Rightarrow> nat \<times> reading list \<times> database" where
  "insert_batch_readings outcome now db readings =
     (let db1 = db\<lparr>batch_calls := batch_calls db + 1\<rparr> in
      if readings = [] then (0, readings, db1)
      else if outcome = ConnFails then (0, readings, db1)
      else
        (case prepare_batch now readings of
           (readings', ok) \<Rightarrow>
             if \<not> ok then (0, readings', db1)
             else if outcome = ExecFails then (0, readings', db1)
             else (length readings', readings',
                   db1\<lparr>rows := rows db1 @ map row_of readings'\<rparr>)))"

text \<open>\<open>insert_sensor_reading\<close>, called with all eight columns given.\<close>

definition insert_sensor_reading ::
  "db_outcome \<Rightarrow> database \<Rightarrow> reading \<Rightarrow> bool \<times> database" where
  "insert_sensor_reading outcome db row =
     (if outcome = DbOk then (True, db\<lparr>rows := rows db @ [row]\<rparr>) else (False, db))"

section \<open>The client (opc_client.py)\<close>

record client_stats =
  total_readings :: nat
  successful_readings :: nat
  failed_readings :: nat
  connection_attempts :: nat

text \<open>Of \<open>sensor_nodes\<close> the keys are kept, one sensor type each.\<close>

record opc_client =
  connected :: bool
  sensor_nodes :: "string list"
  data_buffer :: "reading list"
  cstats :: client_stats

subsection \<open>connect\<close>

definition max_retries :: nat where
  "max_retries = 5"

text \<open>
  \<open>attempt_ok k\<close>: the \<open>try\<close> block of attempt \<open>k\<close> runs to its end. The delays passed to
  \<open>time.sleep\<close> are collected in order. The result \<open>None\<close> is Python's \<open>None\<close>, returned
  when the \<open>for\<close> loop runs out.
\<close>

function connect_loop ::
  "(nat \<Rightarrow> bool) \<Rightarrow> nat \<Rightarrow> real \<Rightarrow> opc_client \<Rightarrow> real list
     \<Rightarrow> bool option \<times> opc_client \<times> real list" where
  "connect_loop attempt_ok attempt retry_delay c sleeps =
     (if attempt < max_retries then
        (let c1 = c\<lparr>cstats := (cstats c)\<lparr>connection_attempts :=
                       connection_attempts (cstats c) + 1\<rparr>\<rparr>
         in if attempt_ok attempt then (Some True, c1\<lparr>connected := True\<rparr>, sleeps)
            else if attempt < max_retries - 1
              then connect_loop attempt_ok (attempt + 1) (retry_delay * (3 / 2)) c1
                     (sleeps @ [retry_delay])
              else (Some False, c1, sleeps))
      else (None, c, sleeps))"
  by pat_completeness auto
termination
  by (relation "measure (\<lambda>(attempt_ok, attempt, retry_delay, c, sleeps). max_retries - attempt)")
     auto

definition connect ::
  "(nat \<Rightarrow> bool) \<Rightarrow> opc_client \<Rightarrow> bool option \<times> opc_client \<times> real list" where
  "connect attempt_ok c = connect_loop attempt_ok 0 2 c []"

subsection \<open>read_sensor_data\<close>

text \<open>
  One entry of \<open>polls\<close> per mapped sensor: the reading built from the sensor's nodes, or
  \<open>None\<close> when reading its value raised.
\<close>

definition read_sensor_data ::
  "opc_client \<Rightarrow> reading option list \<Rightarrow> reading list \<times> opc_client" where
  "read_sensor_data c polls =
     (if \<not> connected c then ([], c)
      else
        (let readings = List.map_filter (\<lambda>x. x) polls;
             failed = length (filter (\<lambda>x. x = None) polls);
             st = cstats c
         in (readings,
             c\<lparr>cstats := st\<lparr>successful_readings := successful_readings st + length readings,
                             failed_readings := failed_readings st + failed,
                             total_readings := total_readings st + length readings\<rparr>\<rparr>)))"

subsection \<open>store_readings\<close>

text \<open>
  The buffer holds the dictionaries that the batch insert is given, so it holds them as
  the insert leaves them.
\<close>

definition store_readings ::
  "daq_config \<Rightarrow> db_outcome \<Rightarrow> nat \<Rightarrow> opc_client \<times> database \<Rightarrow> reading list
     \<Rightarrow> bool \<times> opc_client \<times> database" where
  "store_readings cfg outcome now cd readings =
     (case cd of (c, db) \<Rightarrow>
      if readings = [] then (True, c, db)
      else
        (let buffer = data_buffer c @ readings in
         if int (length buffer) \<ge> batch_size cfg then
           (case insert_batch_readings outcome now db buffer of
              (inserted_count, buffer', db') \<Rightarrow>
                if inserted_count > 0 then (True, c\<lparr>data_buffer := []\<rparr>, db')
                else if int (length buffer') > max_buffer_size cfg then
                  (let overflow = int (length buffer') - max_buffer_size cfg
                   in (False, c\<lparr>data_buffer := py_slice_from overflow buffer'\<rparr>, db'))
                else (False, c\<lparr>data_buffer := buffer'\<rparr>, db'))
         else (True, c\<lparr>data_buffer := buffer\<rparr>, db)))"

subsection \<open>get_statistics\<close>

text \<open>Python's \<open>/\<close> raises on a zero divisor.\<close>

definition py_truediv :: "real \<Rightarrow> real \<Rightarrow> py_error + real" where
  "py_truediv a b = (if b = 0 then Inl ZeroDivisionError else Inr (a / b))"

record client_statistics =
  cs_stats :: client_stats
  cs_success_rate :: real
  cs_connected :: bool
  cs_buffer_size :: nat
  cs_sensors_mapped :: nat

definition get_statistics :: "opc_client \<Rightarrow> py_error + client_statistics" where
  "get_statistics c =
     (case (if total_readings (cstats c) > 0
            then (case py_truediv (real (successful_readings (cstats c)))
                         (real (total_readings (cstats c))) of
                    Inl e \<Rightarrow> Inl e
                  | Inr q \<Rightarrow> Inr (q * 100))
            else Inr 0) of
        Inl e \<Rightarrow> Inl e
      | Inr success_rate \<Rightarrow>
         Inr \<lparr> cs_stats = cstats c, cs_success_rate = success_rate,
               cs_connected = connected c, cs_buffer_size = length (data_buffer c),
               cs_sensors_mapped = length (sensor_nodes c) \<rparr>)"

section \<open>The orchestrator (main.py)\<close>

text \<open>
  \<open>_store_anomaly\<close> builds the row of an anomaly; \<open>handle_anomalies\<close> keeps every anomaly
  in the anomaly buffer and stores its row. Logging is not modelled.
\<close>

definition anomaly_row :: "daq_config \<Rightarrow> anomaly_record \<Rightarrow> reading" where
  "anomaly_row cfg a =
     \<lparr> timestamp = Some (a_timestamp a), machine_id = Some (a_machine_id a),
       sensor_type = Some ''anomaly'', location = Some (cfg_location cfg),
       rvalue = Some 1, runit = Some ''count'', quality = Some 100,
       status = Some (anomaly_type a), anomaly = None, processed_at = None,
       moving_average = None, deviation_from_avg = None, high_deviation = None,
       processing_version = None, daq_system_id = None \<rparr>"

fun handle_anomalies ::
  "daq_config \<Rightarrow> db_outcome \<Rightarrow> daq_system \<times> database \<Rightarrow> anomaly_record list
     \<Rightarrow> daq_system \<times> database" where
  "handle_anomalies cfg outcome sd [] = sd"
| "handle_anomalies cfg outcome sd (a # as) =
     (case sd of (s, db) \<Rightarrow>
        handle_anomalies cfg outcome
          (s\<lparr>anomaly_buffer := anomaly_buffer s @ [a]\<rparr>,
           snd (insert_sensor_reading outcome db (anomaly_row cfg a))) as)"

definition update_statistics :: "daq_system \<Rightarrow> reading list \<Rightarrow> daq_system" where
  "update_statistics s readings =
     s\<lparr>stats := (stats s)\<lparr>total_data_points :=
          total_data_points (stats s) + length readings\<rparr>\<rparr>"

definition maintenance_tasks :: "daq_system \<Rightarrow> daq_system" where
  "maintenance_tasks s =
     (if length (anomaly_buffer s) > 100
      then s\<lparr>anomaly_buffer := py_slice_from (- 100) (anomaly_buffer s)\<rparr>
      else s)"

record 'd detailed_statistics =
  ds_stats :: daq_stats
  ds_success_rate :: real
  ds_opc_client :: client_statistics
  ds_database :: 'd

text \<open>The statistics of the database are those of the storage engine, given as \<open>db_stats\<close>.\<close>

definition get_detailed_statistics ::
  "daq_system \<Rightarrow> opc_client \<Rightarrow> 'd \<Rightarrow> py_error + 'd detailed_statistics" where
  "get_detailed_statistics s c db_stats =
     (case (if total_cycles (stats s) > 0
            then (case py_truediv (real (successful_cycles (stats s)))
                         (real (total_cycles (stats s))) of
                    Inl e \<Rightarrow> Inl e
                  | Inr q \<Rightarrow> Inr (q * 100))
            else Inr 0) of
        Inl e \<Rightarrow> Inl e
      | Inr success_rate \<Rightarrow>
         (case get_statistics c of
            Inl e \<Rightarrow> Inl e
          | Inr opc_stats \<Rightarrow>
             Inr \<lparr> ds_stats = stats s, ds_success_rate = success_rate,
                   ds_opc_client = opc_stats, ds_database = db_stats \<rparr>))"

text \<open>
  What the environment does during one cycle: the sensors polled, the clock of the
  processing loop, the time of the batch insert, the outcomes of the anomaly inserts and
  of the batch insert, and whether an exception reaches the handler of the cycle. Each
  step of the cycle handles its own exceptions, so such an exception comes from outside
  the modelled steps; it is taken to be raised before the first step.
\<close>

record cycle_env =
  polls :: "reading option list"
  clock :: "nat \<Rightarrow> nat"
  store_time :: nat
  anomaly_db :: db_outcome
  batch_db :: db_outcome
  fault :: bool

record system =
  daq :: daq_system
  client :: opc_client
  dbase :: database

definition count_cycle :: "daq_system \<Rightarrow> daq_system" where
  "count_cycle s = s\<lparr>stats := (stats s)\<lparr>total_cycles := total_cycles (stats s) + 1\<rparr>\<rparr>"

definition count_failed :: "daq_system \<Rightarrow> daq_system" where
  "count_failed s = s\<lparr>stats := (stats s)\<lparr>failed_cycles := failed_cycles (stats s) + 1\<rparr>\<rparr>"

definition count_successful :: "daq_system \<Rightarrow> daq_system" where
  "count_successful s =
     s\<lparr>stats := (stats s)\<lparr>successful_cycles := successful_cycles (stats s) + 1\<rparr>\<rparr>"

definition acquisition_cycle :: "daq_config \<Rightarrow> cycle_env \<Rightarrow> system \<Rightarrow> bool \<times> system" where
  "acquisition_cycle cfg env sy =
     (let s0 = count_cycle (daq sy) in
      if fault env then (False, sy\<lparr>daq := count_failed s0\<rparr>)
      else
        (case read_sensor_data (client sy) (polls env) of (readings, c1) \<Rightarrow>
         if readings = [] then (False, sy\<lparr>daq := s0, client := c1\<rparr>)
         else
           (let validated_readings = validate_readings cfg readings in
            if validated_readings = [] then (False, sy\<lparr>daq := s0, client := c1\<rparr>)
            else
              (case process_readings s0 (clock env) validated_readings of
                 (processed_readings, s1) \<Rightarrow>
               (case detect_anomalies s1 processed_readings of (anomalies, s2) \<Rightarrow>
                (case (if anomalies \<noteq> []
                       then handle_anomalies cfg (anomaly_db env) (s2, dbase sy) anomalies
                       else (s2, dbase sy)) of (s3, db1) \<Rightarrow>
                 (case store_readings cfg (batch_db env) (store_time env) (c1, db1)
                         processed_readings of (storage_success, c2, db2) \<Rightarrow>
                  (let s4 = maintenance_tasks (update_statistics s3 processed_readings) in
                   if storage_success
                   then (True, \<lparr>daq = count_successful s4, client = c2, dbase = db2\<rparr>)
                   else (False, \<lparr>daq = s4, client = c2, dbase = db2\<rparr>)))))))))"

subsection \<open>run\<close>

text \<open>
  One pass through the body of the \<open>while\<close> loop. \<open>Iterate env\<close>: the body runs in the
  environment \<open>env\<close>; \<open>Escaped\<close>: an exception reaches the handler of the loop before the
  cycle ran; \<open>Interrupt\<close>: a \<open>KeyboardInterrupt\<close>. The arguments of \<open>time.sleep\<close> are
  collected in \<open>slept\<close>.
\<close>

datatype iteration = Iterate cycle_env | Escaped | Interrupt

record run_state =
  sys :: system
  consecutive_failures :: nat
  slept :: "real list"

definition max_consecutive_failures :: nat where
  "max_consecutive_failures = 5"

definition run_iteration :: "daq_config \<Rightarrow> iteration \<Rightarrow> run_state \<Rightarrow> run_state" where
  "run_iteration cfg it st =
     (case it of
        Iterate env \<Rightarrow>
          if \<not> paused (daq (sys st)) then
            (case acquisition_cycle cfg env (sys st) of (cycle_success, sy) \<Rightarrow>
               (let st1 = st\<lparr>sys := sy\<rparr>;
                    st2 = (if cycle_success then st1\<lparr>consecutive_failures := 0\<rparr>
                           else
                             (let st' = st1\<lparr>consecutive_failures :=
                                              consecutive_failures st1 + 1\<rparr>
                              in if consecutive_failures st' \<ge> max_consecutive_failures
                                 then st'\<lparr>slept := slept st' @ [30],
                                          consecutive_failures := 0\<rparr>
                                 else st'))
                in st2\<lparr>slept := slept st2 @ [acquisition_interval cfg]\<rparr>))
          else st\<lparr>slept := slept st @ [1]\<rparr>
      | Escaped \<Rightarrow>
          st\<lparr>consecutive_failures := consecutive_failures st + 1, slept := slept st @ [5]\<rparr>
      | Interrupt \<Rightarrow> st)"

text \<open>
  The loop over the iterations the environment provides. \<open>None\<close>: the loop is still
  running when they are used up.
\<close>

fun run_loop :: "daq_config \<Rightarrow> iteration list \<Rightarrow> run_state \<Rightarrow> run_state option" where
  "run_loop cfg [] st = (if running (daq (sys st)) then None else Some st)"
| "run_loop cfg (it # its) st =
     (if \<not> running (daq (sys st)) then Some st
      else if it = Interrupt then Some st
      else run_loop cfg its (run_iteration cfg it st))"

definition run :: "daq_config \<Rightarrow> iteration list \<Rightarrow> system \<Rightarrow> run_state option" where
  "run cfg its sy =
     run_loop cfg its
       \<lparr> sys = sy\<lparr>daq := (daq sy)\<lparr>running := True\<rparr>\<rparr>, consecutive_failures = 0, slept = [] \<rparr>"

section \<open>Initial states and sample readings\<close>

text \<open>The states built by the two constructors, and an empty database.\<close>

definition new_daq :: daq_system where
  "new_daq = \<lparr> running = False, paused = False,
       stats = \<lparr> total_cycles = 0, successful_cycles = 0, failed_cycles = 0,
                 total_data_points = 0, anomalies_detected = 0 \<rparr>,
       data_history = [], anomaly_buffer = [] \<rparr>"

definition new_client :: opc_client where
  "new_client = \<lparr> connected = False, sensor_nodes = [], data_buffer = [],
       cstats = \<lparr> total_readings = 0, successful_readings = 0, failed_readings = 0,
                  connection_attempts = 0 \<rparr> \<rparr>"

definition empty_db :: database where
  "empty_db = \<lparr> rows = [], batch_calls = 0 \<rparr>"

text \<open>\<open>_get_sensor_unit\<close>; the degree sign is two bytes in UTF-8.\<close>

definition get_sensor_unit :: "string \<Rightarrow> string" where
  "get_sensor_unit st =
     (if st = ''temperature'' then [CHR 0xC2, CHR 0xB0, CHR ''C'']
      else if st = ''pressure'' then ''bar''
      else if st = ''vibration'' then ''mm/s''
      else ''unknown'')"

text \<open>
  The dictionary that \<open>read_sensor_data\<close> builds for a sensor of the default machine: all
  eight keys, no annotation.
\<close>

definition sensor_reading :: "string \<Rightarrow> real \<Rightarrow> int \<Rightarrow> reading" where
  "sensor_reading st v q =
     \<lparr> timestamp = Some 0, machine_id = Some ''MACHINE_001'', sensor_type = Some st,
       location = Some ''Plant_A_Line_1'', rvalue = Some v,
       runit = Some (get_sensor_unit st), quality = Some q, status = Some ''OK'',
       anomaly = None, processed_at = None, moving_average = None,
       deviation_from_avg = None, high_deviation = None, processing_version = None,
       daq_system_id = None \<rparr>"

text \<open>
  A running system with a connected client, a cycle in which one temperature sensor is
  polled, and a state of the main loop with a given number of consecutive failures.
\<close>

definition connected_system :: system where
  "connected_system =
     \<lparr> daq = new_daq\<lparr>running := True\<rparr>,
       client = new_client\<lparr>connected := True, sensor_nodes := [''temperature'']\<rparr>,
       dbase = empty_db \<rparr>"

definition one_poll :: "real \<Rightarrow> db_outcome \<Rightarrow> cycle_env" where
  "one_poll v outcome =
     \<lparr> polls = [Some (sensor_reading ''temperature'' v 100)], clock = (\<lambda>i. 0),
       store_time = 0, anomaly_db = outcome, batch_db = outcome, fault = False \<rparr>"

definition loop_state :: "nat \<Rightarrow> run_state" where
  "loop_state n = \<lparr> sys = connected_system, consecutive_failures = n, slept = [] \<rparr>"

section \<open>Notions of the specification\<close>

text \<open>The last \<open>n\<close> elements of a list, the arithmetic mean, the values of one sensor type.\<close>

definition last_n :: "nat \<Rightarrow> 'a list \<Rightarrow> 'a list" where
  "last_n n xs = rev (take n (rev xs))"

definition mean :: "real list \<Rightarrow> real" where
  "mean xs = sum_list xs / real (length xs)"

definition values_of_type :: "reading list \<Rightarrow> string \<Rightarrow> real list" where
  "values_of_type history st =
     List.map_filter rvalue (filter (\<lambda>p. sensor_type p = Some st) history)"

text \<open>What the processing loop appends for one reading.\<close>

definition processed_or_original :: "reading list \<Rightarrow> nat \<Rightarrow> reading \<Rightarrow> reading" where
  "processed_or_original history now r =
     (case process_one history now r of Inr p \<Rightarrow> p | Inl e \<Rightarrow> r)"

text \<open>A reading that has the three keys for which the batch insert has defaults.\<close>

definition has_default_keys :: "reading \<Rightarrow> bool" where
  "has_default_keys r \<longleftrightarrow> timestamp r \<noteq> None \<and> quality r \<noteq> None \<and> status r \<noteq> None"

text \<open>
  The storage step of a cycle fails: the buffer of the client, extended by the readings
  of the cycle, reaches the batch size, and the batch insert inserts nothing, because the
  database fails or because a reading lacks a column.
\<close>

definition storage_fails :: "daq_config \<Rightarrow> db_outcome \<Rightarrow> reading list \<Rightarrow> bool" where
  "storage_fails cfg outcome buffer \<longleftrightarrow>
     batch_size cfg \<le> int (length buffer) \<and>
     (outcome \<noteq> DbOk \<or> \<not> list_all has_row_keys buffer)"

text \<open>A configuration with small limits, for examples.\<close>

definition small_daq :: "int \<Rightarrow> int \<Rightarrow> daq_config" where
  "small_daq b m = default_daq\<lparr>batch_size := b, max_buffer_size := m\<rparr>"

text \<open>A sequence of calls of \<open>store_readings\<close>, each with the outcome of its batch insert.\<close>

fun store_sequence ::
  "daq_config \<Rightarrow> (db_outcome \<times> nat \<times> reading list) list \<Rightarrow> opc_client \<times> database
     \<Rightarrow> opc_client \<times> database" where
  "store_sequence cfg [] cd = cd"
| "store_sequence cfg ((outcome, now, readings) # calls) cd =
     store_sequence cfg calls (snd (store_readings cfg outcome now cd readings))"

text \<open>A sequence of cycles, each in its environment.\<close>

fun cycle_sequence :: "daq_config \<Rightarrow> cycle_env list \<Rightarrow> system \<Rightarrow> system" where
  "cycle_sequence cfg [] sy = sy"
| "cycle_sequence cfg (env # envs) sy =
     cycle_sequence cfg envs (snd (acquisition_cycle cfg env sy))"

section \<open>Validation: the quality gate and the range gate\<close>

lemma validate_loop_append:
  "validate_loop cfg rs acc = acc @ validate_loop cfg rs []"
proof (induction rs arbitrary: acc)
  case Nil
  show ?case by simp
next
  case (Cons r rs)
  show ?case
    using Cons.IH [of "acc @ [x]" for x] Cons.IH [of "[x]" for x] Cons.IH [of acc]
    by (simp split: sum.splits option.splits)
qed

lemma in_validate_readings:
  "p \<in> set (validate_readings cfg rs) \<longleftrightarrow>
     (\<exists>r \<in> set rs. validate_one cfg r = Inr (Some p))"
  unfolding validate_readings_def
proof (induction rs)
  case Nil
  show ?case by simp
next
  case (Cons r rs)
  show ?case
    using Cons.IH validate_loop_append [of cfg rs "[x]" for x]
    by (auto split: sum.splits option.splits)
qed

lemma validate_one_quality:
  "validate_one cfg r = Inr (Some p) \<Longrightarrow> min_quality_threshold cfg \<le> quality_of p"
  by (auto simp: validate_one_def quality_of_def split: option.splits if_splits)

lemma quality_of_anomaly [simp]: "quality_of (r\<lparr>anomaly := t\<rparr>) = quality_of r"
  by (simp add: quality_of_def)

text \<open>
  C2. Every reading in the list returned by \<open>validate_readings\<close> has a quality of at least
  \<open>min_quality_threshold\<close>, and a reading whose quality is below the threshold is not in
  the returned list, with or without an anomaly tag.
\<close>

theorem validate_readings_quality_gate:
  "(\<forall>p \<in> set (validate_readings cfg readings). min_quality_threshold cfg \<le> quality_of p) \<and>
   (\<forall>r \<in> set readings. quality_of r < min_quality_threshold cfg \<longrightarrow>
       r \<notin> set (validate_readings cfg readings) \<and>
       (\<forall>t. r\<lparr>anomaly := t\<rparr> \<notin> set (validate_readings cfg readings)))"
proof -
  have a: "min_quality_threshold cfg \<le> quality_of p"
    if "p \<in> set (validate_readings cfg readings)" for p
    using that validate_one_quality by (auto simp: in_validate_readings)
  show ?thesis
    using a quality_of_anomaly by (metis not_le)
qed

theorem validate_readings_quality_gate_witness:
  "sensor_reading ''pressure'' 1 79 \<in>
     set [sensor_reading ''pressure'' 1 79, sensor_reading ''pressure'' 1 80] \<and>
   quality_of (sensor_reading ''pressure'' 1 79) < min_quality_threshold default_daq \<and>
   sensor_reading ''pressure'' 1 79 \<notin>
     set (validate_readings default_daq
            [sensor_reading ''pressure'' 1 79, sensor_reading ''pressure'' 1 80]) \<and>
   validate_readings default_daq
     [sensor_reading ''pressure'' 1 79, sensor_reading ''pressure'' 1 80] =
     [sensor_reading ''pressure'' 1 80]"
  using validate_readings_quality_gate
          [of default_daq "[sensor_reading ''pressure'' 1 79, sensor_reading ''pressure'' 1 80]"]
  by (simp add: validate_readings_def validate_one_def default_daq_def sensor_reading_def
        quality_of_def)

lemma validate_one_accepts:
  assumes "sensor_type r = Some st" and "rvalue r = Some v"
    and "min_quality_threshold cfg \<le> quality_of r"
  shows "validate_one cfg r =
     Inr (Some (if st = ''temperature'' then
                  (if v < temperature_min cfg \<or> temperature_max cfg < v
                   then r\<lparr>anomaly := Some ''OUT_OF_RANGE''\<rparr> else r)
                else if st = ''pressure'' then
                  (if v < pressure_min cfg \<or> pressure_max cfg < v
                   then r\<lparr>anomaly := Some ''OUT_OF_RANGE''\<rparr> else r)
                else if st = ''vibration'' then
                  (if vibration_max cfg < v
                   then r\<lparr>anomaly := Some ''HIGH_VIBRATION''\<rparr> else r)
                else r))"
  using assms by (simp add: validate_one_def not_le not_less)

text \<open>
  C3. A reading that has a sensor type and a value and passes the quality gate is in the
  list returned by \<open>validate_readings\<close>, whatever its value: tagged \<open>OUT_OF_RANGE\<close> when
  it is a temperature or a pressure outside its range, tagged \<open>HIGH_VIBRATION\<close> when it is
  a vibration above the maximum, and as it is otherwise.
\<close>

theorem range_violation_retained:
  assumes "r \<in> set readings"
    and "sensor_type r = Some st" and "rvalue r = Some v"
    and "min_quality_threshold cfg \<le> quality_of r"
  shows "(st = ''temperature'' \<and> (v < temperature_min cfg \<or> temperature_max cfg < v) \<longrightarrow>
            r\<lparr>anomaly := Some ''OUT_OF_RANGE''\<rparr> \<in> set (validate_readings cfg readings)) \<and>
         (st = ''pressure'' \<and> (v < pressure_min cfg \<or> pressure_max cfg < v) \<longrightarrow>
            r\<lparr>anomaly := Some ''OUT_OF_RANGE''\<rparr> \<in> set (validate_readings cfg readings)) \<and>
         (st = ''vibration'' \<and> vibration_max cfg < v \<longrightarrow>
            r\<lparr>anomaly := Some ''HIGH_VIBRATION''\<rparr> \<in> set (validate_readings cfg readings)) \<and>
         (r \<in> set (validate_readings cfg readings) \<or>
          r\<lparr>anomaly := Some ''OUT_OF_RANGE''\<rparr> \<in> set (validate_readings cfg readings) \<or>
          r\<lparr>anomaly := Some ''HIGH_VIBRATION''\<rparr> \<in> set (validate_readings cfg readings))"
proof -
  note acc = validate_one_accepts [OF assms(2-4)]
  have keep: "p \<in> set (validate_readings cfg readings)" if "validate_one cfg r = Inr (Some p)" for p
    using that assms(1) in_validate_readings by blast
  have t: "r\<lparr>anomaly := Some ''OUT_OF_RANGE''\<rparr> \<in> set (validate_readings cfg readings)"
    if "st = ''temperature''" "v < temperature_min cfg \<or> temperature_max cfg < v"
    by (rule keep) (simp add: acc that)
  have p: "r\<lparr>anomaly := Some ''OUT_OF_RANGE''\<rparr> \<in> set (validate_readings cfg readings)"
    if "st = ''pressure''" "v < pressure_min cfg \<or> pressure_max cfg < v"
    by (rule keep) (simp add: acc that)
  have b: "r\<lparr>anomaly := Some ''HIGH_VIBRATION''\<rparr> \<in> set (validate_readings cfg readings)"
    if "st = ''vibration''" "vibration_max cfg < v"
    by (rule keep) (simp add: acc that)
  define x where "x = r\<lparr>anomaly := Some ''OUT_OF_RANGE''\<rparr>"
  define y where "y = r\<lparr>anomaly := Some ''HIGH_VIBRATION''\<rparr>"
  have "validate_one cfg r = Inr (Some r) \<or> validate_one cfg r = Inr (Some x) \<or>
        validate_one cfg r = Inr (Some y)"
    unfolding acc x_def [symmetric] y_def [symmetric] by simp
  then have any: "r \<in> set (validate_readings cfg readings) \<or>
          r\<lparr>anomaly := Some ''OUT_OF_RANGE''\<rparr> \<in> set (validate_readings cfg readings) \<or>
          r\<lparr>anomaly := Some ''HIGH_VIBRATION''\<rparr> \<in> set (validate_readings cfg readings)"
    using keep unfolding x_def y_def by blast
  show ?thesis using t p b any by blast
qed

theorem range_violation_retained_witness:
  "sensor_reading ''temperature'' 45 100 \<in> set [sensor_reading ''temperature'' 45 100] \<and>
   min_quality_threshold default_daq \<le> quality_of (sensor_reading ''temperature'' 45 100) \<and>
   temperature_max default_daq = 40 \<and>
   (sensor_reading ''temperature'' 45 100)\<lparr>anomaly := Some ''OUT_OF_RANGE''\<rparr> \<in>
     set (validate_readings default_daq [sensor_reading ''temperature'' 45 100])"
  using range_violation_retained
          [of "sensor_reading ''temperature'' 45 100" "[sensor_reading ''temperature'' 45 100]"
              "''temperature''" 45 default_daq]
  by (simp add: default_daq_def sensor_reading_def quality_of_def)

section \<open>The moving average\<close>

lemma py_slice_last_n:
  "0 < n \<Longrightarrow> py_slice_from (- int n) xs = last_n n xs"
  by (simp add: py_slice_from_def last_n_def rev_take nat_diff_distrib' of_nat_diff)

lemma history_values_total:
  "\<forall>p \<in> set history. sensor_type p = Some st \<longrightarrow> rvalue p \<noteq> None \<Longrightarrow>
   history_values history st = Inr (values_of_type history st)"
  by (induction history) (auto simp: values_of_type_def List.map_filter_simps)

text \<open>
  C8. When every point of the history that has the sensor type has a value,
  \<open>calculate_moving_average\<close> with the window 5 returns the arithmetic mean of the last
  five of the values of that sensor type in the history followed by the current value.
\<close>

theorem moving_average_mean:
  assumes "\<forall>p \<in> set history. sensor_type p = Some st \<longrightarrow> rvalue p \<noteq> None"
  shows "calculate_moving_average history st v 5 =
           Inr (mean (last_n 5 (values_of_type history st @ [v])))"
proof -
  have "py_slice_from (- 5) xs = last_n 5 xs" for xs :: "real list"
    using py_slice_last_n [of 5 xs] by simp
  moreover have "last_n 5 (ys @ [v]) \<noteq> []" for ys
    by (simp add: last_n_def)
  ultimately show ?thesis
    using history_values_total [OF assms]
    by (simp add: calculate_moving_average_def mean_def Let_def)
qed

theorem moving_average_mean_witness:
  "list_all (\<lambda>p. sensor_type p = Some ''temperature'' \<longrightarrow> rvalue p \<noteq> None)
     (map (\<lambda>v. sensor_reading ''temperature'' v 100) [20, 22, 24, 23, 25]) \<and>
   values_of_type (map (\<lambda>v. sensor_reading ''temperature'' v 100) [20, 22, 24, 23, 25])
     ''temperature'' = [20, 22, 24, 23, 25] \<and>
   last_n 5 ([20, 22, 24, 23, 25] @ [26 :: real]) = [22, 24, 23, 25, 26] \<and>
   mean [22, 24, 23, 25, 26] = 24 \<and>
   calculate_moving_average
     (map (\<lambda>v. sensor_reading ''temperature'' v 100) [20, 22, 24, 23, 25])
     ''temperature'' 26 5 = Inr 24"
  using moving_average_mean
          [of "map (\<lambda>v. sensor_reading ''temperature'' v 100) [20, 22, 24, 23, 25]"
              "''temperature''" 26]
  by (simp add: sensor_reading_def values_of_type_def List.map_filter_simps last_n_def
        mean_def)

section \<open>The processing loop\<close>

lemma process_loop_step:
  "process_loop history clk (r # rs) acc =
     process_loop history clk rs (acc @ [processed_or_original history (clk (length acc)) r])"
  by (simp add: processed_or_original_def split: sum.splits)

lemma process_loop_nth:
  "length (process_loop history clk rs acc) = length acc + length rs \<and>
   (\<forall>i < length acc. process_loop history clk rs acc ! i = acc ! i) \<and>
   (\<forall>i < length rs. process_loop history clk rs acc ! (length acc + i) =
       processed_or_original history (clk (length acc + i)) (rs ! i))"
proof (induction rs arbitrary: acc)
  case Nil
  show ?case by simp
next
  case (Cons r rs)
  define q where "q = processed_or_original history (clk (length acc)) r"
  note ih = Cons.IH [of "acc @ [q]"]
  have step: "process_loop history clk (r # rs) acc = process_loop history clk rs (acc @ [q])"
    by (simp only: process_loop_step q_def)
  have len: "length (process_loop history clk (r # rs) acc) = length acc + length (r # rs)"
    using ih unfolding step by simp
  have pre: "process_loop history clk (r # rs) acc ! i = acc ! i" if "i < length acc" for i
    using ih that unfolding step by (simp add: nth_append)
  have post: "process_loop history clk (r # rs) acc ! (length acc + i) =
       processed_or_original history (clk (length acc + i)) ((r # rs) ! i)"
    if "i < length (r # rs)" for i
  proof (cases i)
    case 0
    have "process_loop history clk rs (acc @ [q]) ! length acc = (acc @ [q]) ! length acc"
      using ih by simp
    then show ?thesis unfolding step 0 by (simp add: q_def)
  next
    case (Suc j)
    then have "j < length rs" using that by simp
    then have "process_loop history clk rs (acc @ [q]) ! (length (acc @ [q]) + j) =
         processed_or_original history (clk (length (acc @ [q]) + j)) (rs ! j)"
      using ih by blast
    then show ?thesis unfolding step Suc by simp
  qed
  show ?case using len pre post by blast
qed

lemma process_one_keeps:
  "process_one history now r = Inr p \<Longrightarrow> row_of p = row_of r \<and> anomaly p = anomaly r"
  by (auto simp: process_one_def row_of_def Let_def split: option.splits sum.splits if_splits)

text \<open>
  C9. \<open>process_readings\<close> returns a list of the length of its input, in the order of its
  input: at every position it holds the enriched reading, or the original reading when
  the enrichment raised. In both cases the eight columns and the anomaly tag of the
  reading are those of the input.
\<close>

theorem process_readings_same_length:
  "length (fst (process_readings s clk readings)) = length readings \<and>
   (\<forall>i < length readings.
      fst (process_readings s clk readings) ! i =
        (case process_one (data_history s) (clk i) (readings ! i) of
           Inr p \<Rightarrow> p | Inl e \<Rightarrow> readings ! i) \<and>
      row_of (fst (process_readings s clk readings) ! i) = row_of (readings ! i) \<and>
      anomaly (fst (process_readings s clk readings) ! i) = anomaly (readings ! i))"
proof -
  have eq: "fst (process_readings s clk readings) = process_loop (data_history s) clk readings []"
    by (simp add: process_readings_def Let_def)
  have n: "process_loop (data_history s) clk readings [] ! i =
        (case process_one (data_history s) (clk i) (readings ! i) of
           Inr p \<Rightarrow> p | Inl e \<Rightarrow> readings ! i)" if "i < length readings" for i
    using process_loop_nth [of "data_history s" clk readings "[]"] that
    by (simp add: processed_or_original_def)
  have k: "row_of (process_loop (data_history s) clk readings [] ! i) = row_of (readings ! i) \<and>
     anomaly (process_loop (data_history s) clk readings [] ! i) = anomaly (readings ! i)"
    if "i < length readings" for i
    using n [OF that] process_one_keeps [of "data_history s" "clk i" "readings ! i"]
    by (cases "process_one (data_history s) (clk i) (readings ! i)") auto
  show ?thesis
    using process_loop_nth [of "data_history s" clk readings "[]"] n k by (simp add: eq)
qed

theorem process_readings_same_length_witness:
  "process_one [] 0 ((sensor_reading ''pressure'' 1 100)\<lparr>rvalue := None\<rparr>) =
     Inl (KeyError ''value'') \<and>
   length (fst (process_readings new_daq (\<lambda>i. 0)
     [sensor_reading ''pressure'' 1 100,
      (sensor_reading ''pressure'' 1 100)\<lparr>rvalue := None\<rparr>])) = 2 \<and>
   fst (process_readings new_daq (\<lambda>i. 0)
     [sensor_reading ''pressure'' 1 100,
      (sensor_reading ''pressure'' 1 100)\<lparr>rvalue := None\<rparr>]) ! 1 =
     (sensor_reading ''pressure'' 1 100)\<lparr>rvalue := None\<rparr>"
  using process_readings_same_length
          [of new_daq "\<lambda>i. 0"
              "[sensor_reading ''pressure'' 1 100,
                (sensor_reading ''pressure'' 1 100)\<lparr>rvalue := None\<rparr>]"]
  by (simp add: process_one_def sensor_reading_def new_daq_def)

section \<open>Statistics\<close>

text \<open>
  C10. \<open>get_statistics\<close> and \<open>get_detailed_statistics\<close> never raise
  \<open>ZeroDivisionError\<close>: the success rate is 0 when the total is 0, and the quotient of
  the successes and the total, times 100, otherwise.
\<close>

theorem statistics_guarded:
  "get_statistics c =
     Inr \<lparr> cs_stats = cstats c,
           cs_success_rate =
             (if total_readings (cstats c) = 0 then 0
              else real (successful_readings (cstats c)) / real (total_readings (cstats c)) * 100),
           cs_connected = connected c, cs_buffer_size = length (data_buffer c),
           cs_sensors_mapped = length (sensor_nodes c) \<rparr> \<and>
   get_detailed_statistics s c db_stats =
     Inr \<lparr> ds_stats = stats s,
           ds_success_rate =
             (if total_cycles (stats s) = 0 then 0
              else real (successful_cycles (stats s)) / real (total_cycles (stats s)) * 100),
           ds_opc_client = projr (get_statistics c), ds_database = db_stats \<rparr>"
  by (simp add: get_statistics_def get_detailed_statistics_def py_truediv_def)

theorem statistics_guarded_witness:
  "cs_success_rate (projr (get_statistics new_client)) = 0 \<and>
   cs_success_rate (projr (get_statistics
     (new_client\<lparr>cstats := (cstats new_client)\<lparr>total_readings := 4,
        successful_readings := 3\<rparr>\<rparr>))) = 75 \<and>
   ds_success_rate (projr (get_detailed_statistics new_daq new_client ())) = 0"
proof -
  have a: "cs_success_rate (projr (get_statistics new_client)) = 0"
    using statistics_guarded [of new_client new_daq "()", THEN conjunct1]
    by (simp add: new_client_def)
  have b: "cs_success_rate (projr (get_statistics
     (new_client\<lparr>cstats := (cstats new_client)\<lparr>total_readings := 4,
        successful_readings := 3\<rparr>\<rparr>))) = 75"
    using statistics_guarded [of "new_client\<lparr>cstats := (cstats new_client)\<lparr>total_readings := 4,
        successful_readings := 3\<rparr>\<rparr>" new_daq "()", THEN conjunct1]
    by (simp add: new_client_def)
  have c: "ds_success_rate (projr (get_detailed_statistics new_daq new_client ())) = 0"
    using statistics_guarded [of new_client new_daq "()", THEN conjunct2]
    by (simp add: new_daq_def)
  show ?thesis using a b c by simp
qed

section \<open>Connecting\<close>

text \<open>
  C7. \<open>connect\<close> makes the attempts 0 to 4 in order and stops at the first that succeeds:
  it then returns \<open>True\<close>, having slept 2, 3, 4.5 and 6.75 seconds after the failed
  attempts before it. When all five attempts fail it returns \<open>False\<close>, having slept these
  four delays. The number of attempts is counted in \<open>connection_attempts\<close>.
\<close>

theorem connect_attempts:
  "connect attempt_ok c =
     (case List.find attempt_ok [0, 1, 2, 3, 4] of
        Some k \<Rightarrow>
          (Some True,
           c\<lparr>cstats := (cstats c)\<lparr>connection_attempts := connection_attempts (cstats c) + (k + 1)\<rparr>,
             connected := True\<rparr>,
           take k [2, 3, 9 / 2, 27 / 4])
      | None \<Rightarrow>
          (Some False,
           c\<lparr>cstats := (cstats c)\<lparr>connection_attempts := connection_attempts (cstats c) + 5\<rparr>\<rparr>,
           [2, 3, 9 / 2, 27 / 4]))"
  by (simp add: connect_def max_retries_def Let_def eval_nat_numeral)

theorem connect_attempts_witness:
  "connect (\<lambda>k. k = 2) new_client =
     (Some True,
      new_client\<lparr>cstats := (cstats new_client)\<lparr>connection_attempts := 3\<rparr>,
                  connected := True\<rparr>,
      [2, 3]) \<and>
   connect (\<lambda>k. False) new_client =
     (Some False,
      new_client\<lparr>cstats := (cstats new_client)\<lparr>connection_attempts := 5\<rparr>\<rparr>,
      [2, 3, 9 / 2, 27 / 4])"
  using connect_attempts [of "\<lambda>k. k = 2" new_client]
    connect_attempts [of "\<lambda>k. False" new_client]
  by (simp add: new_client_def)

section \<open>The storage buffer\<close>

lemma prepare_batch_length: "length (fst (prepare_batch now rs)) = length rs"
  by (induction rs) (auto split: prod.splits)

lemma prepare_batch_ok: "snd (prepare_batch now rs) = list_all has_row_keys rs"
  by (induction rs) (auto split: prod.splits)

lemma prepare_batch_rel:
  "list_all2 (\<lambda>a b. b = a \<or> b = fill_defaults now a) rs (fst (prepare_batch now rs))"
  by (induction rs) (auto split: prod.splits simp: list_all2_same)

lemma fill_defaults_id: "has_default_keys r \<Longrightarrow> fill_defaults now r = r"
  by (auto simp: has_default_keys_def fill_defaults_def)

lemma prepare_batch_id:
  "\<forall>r \<in> set rs. has_default_keys r \<Longrightarrow> fst (prepare_batch now rs) = rs"
  by (induction rs) (auto split: prod.splits simp: fill_defaults_id)

lemma insert_batch_count:
  "fst (insert_batch_readings outcome now db rs) =
     (if rs \<noteq> [] \<and> outcome = DbOk \<and> list_all has_row_keys rs then length rs else 0)"
  using prepare_batch_ok [of now rs] prepare_batch_length [of now rs]
  by (cases outcome) (auto simp: insert_batch_readings_def Let_def split: prod.splits)

lemma insert_batch_calls:
  "batch_calls (snd (snd (insert_batch_readings outcome now db rs))) = batch_calls db + 1"
  by (auto simp: insert_batch_readings_def Let_def split: prod.splits)

lemma insert_batch_left:
  "fst (snd (insert_batch_readings outcome now db rs)) = rs \<or>
   fst (snd (insert_batch_readings outcome now db rs)) = fst (prepare_batch now rs)"
  by (auto simp: insert_batch_readings_def Let_def split: prod.splits)

lemma insert_batch_length:
  "length (fst (snd (insert_batch_readings outcome now db rs))) = length rs"
  using insert_batch_left [of outcome now db rs] prepare_batch_length [of now rs] by auto

lemma insert_batch_rel:
  "list_all2 (\<lambda>a b. b = a \<or> b = fill_defaults now a) rs
     (fst (snd (insert_batch_readings outcome now db rs)))"
  using insert_batch_left [of outcome now db rs] prepare_batch_rel [of now rs]
  by (auto simp: list_all2_same)

lemma insert_batch_id:
  "\<forall>r \<in> set rs. has_default_keys r \<Longrightarrow>
   fst (snd (insert_batch_readings outcome now db rs)) = rs"
  using insert_batch_left [of outcome now db rs] prepare_batch_id [of rs now] by auto

lemma store_readings_cases:
  "store_readings cfg outcome now (c, db) readings =
     (if readings = [] then (True, c, db)
      else if int (length (data_buffer c @ readings)) < batch_size cfg
        then (True, c\<lparr>data_buffer := data_buffer c @ readings\<rparr>, db)
      else if 0 < fst (insert_batch_readings outcome now db (data_buffer c @ readings))
        then (True, c\<lparr>data_buffer := []\<rparr>,
              snd (snd (insert_batch_readings outcome now db (data_buffer c @ readings))))
      else (False,
            c\<lparr>data_buffer :=
                 drop (nat (int (length (data_buffer c @ readings)) - max_buffer_size cfg))
                   (fst (snd (insert_batch_readings outcome now db (data_buffer c @ readings))))\<rparr>,
            snd (snd (insert_batch_readings outcome now db (data_buffer c @ readings)))))"
proof -
  obtain n B d where i: "insert_batch_readings outcome now db (data_buffer c @ readings) = (n, B, d)"
    by (cases "insert_batch_readings outcome now db (data_buffer c @ readings)") auto
  have l: "length B = length (data_buffer c @ readings)"
    using insert_batch_length [of outcome now db "data_buffer c @ readings"] i by simp
  show ?thesis
    using l by (simp add: store_readings_def Let_def i py_slice_from_def not_le)
qed

lemma store_small:
  "readings \<noteq> [] \<Longrightarrow> int (length (data_buffer c @ readings)) < batch_size cfg \<Longrightarrow>
   store_readings cfg outcome now (c, db) readings =
     (True, c\<lparr>data_buffer := data_buffer c @ readings\<rparr>, db)"
  by (simp only: store_readings_cases if_True if_False)

lemma store_flushed:
  "readings \<noteq> [] \<Longrightarrow> batch_size cfg \<le> int (length (data_buffer c @ readings)) \<Longrightarrow>
   0 < fst (insert_batch_readings outcome now db (data_buffer c @ readings)) \<Longrightarrow>
   store_readings cfg outcome now (c, db) readings =
     (True, c\<lparr>data_buffer := []\<rparr>,
      snd (snd (insert_batch_readings outcome now db (data_buffer c @ readings))))"
  by (simp only: store_readings_cases if_True if_False not_less [symmetric])

lemma store_failed:
  "readings \<noteq> [] \<Longrightarrow> batch_size cfg \<le> int (length (data_buffer c @ readings)) \<Longrightarrow>
   \<not> 0 < fst (insert_batch_readings outcome now db (data_buffer c @ readings)) \<Longrightarrow>
   store_readings cfg outcome now (c, db) readings =
     (False,
      c\<lparr>data_buffer :=
           drop (nat (int (length (data_buffer c @ readings)) - max_buffer_size cfg))
             (fst (snd (insert_batch_readings outcome now db (data_buffer c @ readings))))\<rparr>,
      snd (snd (insert_batch_readings outcome now db (data_buffer c @ readings))))"
  by (simp only: store_readings_cases if_True if_False not_less [symmetric])

lemma store_readings_bounded:
  assumes "0 \<le> max_buffer_size cfg" and "batch_size cfg \<le> max_buffer_size cfg + 1"
    and "int (length (data_buffer (fst cd))) \<le> max_buffer_size cfg"
  shows "int (length (data_buffer (fst (snd (store_readings cfg outcome now cd readings)))))
           \<le> max_buffer_size cfg"
proof -
  obtain c db where cd: "cd = (c, db)" by (cases cd)
  have l: "length (fst (snd (insert_batch_readings outcome now db (data_buffer c @ readings)))) =
        length (data_buffer c @ readings)"
    by (rule insert_batch_length)
  show ?thesis
    using assms l unfolding cd store_readings_cases by (auto simp: Let_def)
qed

lemma store_sequence_bounded:
  assumes "0 \<le> max_buffer_size cfg" and "batch_size cfg \<le> max_buffer_size cfg + 1"
  shows "int (length (data_buffer (fst cd))) \<le> max_buffer_size cfg \<Longrightarrow>
         int (length (data_buffer (fst (store_sequence cfg calls cd)))) \<le> max_buffer_size cfg"
proof (induction calls arbitrary: cd)
  case Nil
  then show ?case by simp
next
  case (Cons call calls)
  obtain outcome now readings where call: "call = (outcome, now, readings)"
    by (cases call) auto
  have "int (length (data_buffer (fst (snd (store_readings cfg outcome now cd readings)))))
           \<le> max_buffer_size cfg"
    using store_readings_bounded [OF assms Cons.prems] .
  then show ?case
    using Cons.IH unfolding call by simp
qed

text \<open>
  C4, as amended. When \<open>max_buffer_size\<close> is not negative and \<open>batch_size\<close> is at most
  \<open>max_buffer_size + 1\<close>, a buffer within the limit is within the limit after every
  sequence of calls of \<open>store_readings\<close>, whatever the outcomes of the batch inserts. When
  a call returns \<open>False\<close>, the buffer is what the failed insert left of the extended
  buffer without its oldest entries, as many as the extended buffer had over the limit.
\<close>

theorem buffer_bounded:
  assumes "0 \<le> max_buffer_size cfg" and "batch_size cfg \<le> max_buffer_size cfg + 1"
    and "int (length (data_buffer c)) \<le> max_buffer_size cfg"
  shows "int (length (data_buffer (fst (store_sequence cfg calls (c, db))))) \<le> max_buffer_size cfg \<and>
    (\<not> fst (store_readings cfg outcome now (c, db) readings) \<longrightarrow>
       (\<exists>evicted.
          fst (snd (insert_batch_readings outcome now db (data_buffer c @ readings))) =
            evicted @ data_buffer (fst (snd (store_readings cfg outcome now (c, db) readings))) \<and>
          int (length evicted) =
            max 0 (int (length (data_buffer c @ readings)) - max_buffer_size cfg)))"
proof -
  define B where "B = fst (snd (insert_batch_readings outcome now db (data_buffer c @ readings)))"
  define k where "k = nat (int (length (data_buffer c @ readings)) - max_buffer_size cfg)"
  define res where "res = store_readings cfg outcome now (c, db) readings"
  have l: "length B = length (data_buffer c @ readings)"
    unfolding B_def by (rule insert_batch_length)
  have a: "int (length (data_buffer (fst (store_sequence cfg calls (c, db))))) \<le> max_buffer_size cfg"
    using store_sequence_bounded [OF assms(1,2), of "(c, db)" calls] assms(3) by simp
  have b: "\<exists>evicted. B = evicted @ data_buffer (fst (snd res)) \<and>
           int (length evicted) = max 0 (int (length (data_buffer c @ readings)) - max_buffer_size cfg)"
    if f: "\<not> fst res"
  proof -
    have ne: "readings \<noteq> []"
      using f unfolding res_def store_readings_cases by (cases "readings = []") simp_all
    have big: "batch_size cfg \<le> int (length (data_buffer c @ readings))"
    proof (rule ccontr)
      assume "\<not> ?thesis"
      then have "res = (True, c\<lparr>data_buffer := data_buffer c @ readings\<rparr>, db)"
        unfolding res_def using ne by (intro store_small) simp_all
      then show False using f by simp
    qed
    have nz: "\<not> 0 < fst (insert_batch_readings outcome now db (data_buffer c @ readings))"
    proof
      assume "0 < fst (insert_batch_readings outcome now db (data_buffer c @ readings))"
      then have "fst res = True"
        unfolding res_def using store_flushed [OF ne big] by simp
      then show False using f by simp
    qed
    have d: "data_buffer (fst (snd res)) = drop k B"
      unfolding res_def B_def k_def using store_failed [OF ne big nz] by simp
    have "B = take k B @ data_buffer (fst (snd res))"
      unfolding d by simp
    moreover have "int (length (take k B)) =
        max 0 (int (length (data_buffer c @ readings)) - max_buffer_size cfg)"
      using assms(1) l unfolding k_def by simp
    ultimately show ?thesis by blast
  qed
  show ?thesis
    using a b unfolding B_def res_def by blast
qed

theorem buffer_bounded_witness:
  "0 \<le> max_buffer_size (small_daq 2 2) \<and>
   batch_size (small_daq 2 2) \<le> max_buffer_size (small_daq 2 2) + 1 \<and>
   int (length (data_buffer new_client)) \<le> max_buffer_size (small_daq 2 2) \<and>
   data_buffer (fst (store_sequence (small_daq 2 2)
       [(ConnFails, 0, [sensor_reading ''temperature'' 21 100,
                        sensor_reading ''temperature'' 22 100,
                        sensor_reading ''temperature'' 23 100])]
       (new_client, empty_db))) =
     [sensor_reading ''temperature'' 22 100, sensor_reading ''temperature'' 23 100] \<and>
   \<not> fst (store_readings (small_daq 2 2) ConnFails 0 (new_client, empty_db)
       [sensor_reading ''temperature'' 21 100, sensor_reading ''temperature'' 22 100,
        sensor_reading ''temperature'' 23 100])"
  using buffer_bounded
          [of "small_daq 2 2" new_client
              "[(ConnFails, 0, [sensor_reading ''temperature'' 21 100,
                                sensor_reading ''temperature'' 22 100,
                                sensor_reading ''temperature'' 23 100])]"
              empty_db ConnFails 0
              "[sensor_reading ''temperature'' 21 100, sensor_reading ''temperature'' 22 100,
                sensor_reading ''temperature'' 23 100]"]
  by (simp add: small_daq_def default_daq_def new_client_def empty_db_def
        store_readings_def insert_batch_readings_def py_slice_from_def Let_def)

text \<open>
  The claim C4 as stated fails: with a batch size of 3 and a limit of 1, two readings
  stored into an empty buffer stay in the buffer, which is then over the limit.
\<close>

theorem buffer_bounded_counterexample:
  "max_buffer_size (small_daq 3 1) <
     int (length (data_buffer (fst (store_sequence (small_daq 3 1)
       [(DbOk, 0, [sensor_reading ''temperature'' 21 100,
                   sensor_reading ''temperature'' 22 100])]
       (new_client, empty_db)))))"
  by (simp add: small_daq_def default_daq_def new_client_def empty_db_def
        store_readings_def Let_def)

text \<open>
  C5, as amended. For a list of readings that is not empty, \<open>store_readings\<close> calls the
  batch insert exactly when the buffer, extended by the readings, has reached the batch
  size. Below the batch size the call returns \<open>True\<close> and keeps the extended buffer.
  After an insert that succeeded the buffer is empty. After an insert that failed the call
  returns \<open>False\<close> and the buffer holds the readings of the extended buffer, in order,
  without the oldest entries over \<open>max_buffer_size\<close>: each reading as it was, or with the
  defaults that the insert wrote into it; readings that have a time stamp, a quality and
  a status are as they were.
\<close>

theorem flush_trigger:
  assumes "readings \<noteq> []"
    and "store_readings cfg outcome now (c, db) readings = (ok, c', db')"
  shows "(batch_calls db' = batch_calls db + 1) =
           (batch_size cfg \<le> int (length (data_buffer c @ readings))) \<and>
         (int (length (data_buffer c @ readings)) < batch_size cfg \<longrightarrow>
            ok \<and> db' = db \<and> data_buffer c' = data_buffer c @ readings) \<and>
         (batch_size cfg \<le> int (length (data_buffer c @ readings)) \<and> ok \<longrightarrow>
            data_buffer c' = []) \<and>
         (\<not> ok \<longrightarrow>
            batch_size cfg \<le> int (length (data_buffer c @ readings)) \<and>
            list_all2 (\<lambda>a b. b = a \<or> b = fill_defaults now a)
              (drop (nat (int (length (data_buffer c @ readings)) - max_buffer_size cfg))
                 (data_buffer c @ readings))
              (data_buffer c') \<and>
            (list_all has_default_keys (data_buffer c @ readings) \<longrightarrow>
               data_buffer c' =
                 drop (nat (int (length (data_buffer c @ readings)) - max_buffer_size cfg))
                   (data_buffer c @ readings)))"
proof -
  define buffer where "buffer = data_buffer c @ readings"
  define B where "B = fst (snd (insert_batch_readings outcome now db buffer))"
  define k where "k = nat (int (length buffer) - max_buffer_size cfg)"
  define n where "n = fst (insert_batch_readings outcome now db buffer)"
  define d where "d = snd (snd (insert_batch_readings outcome now db buffer))"
  have calls: "batch_calls d = batch_calls db + 1"
    unfolding d_def by (rule insert_batch_calls)
  have rel: "list_all2 (\<lambda>a b. b = a \<or> b = fill_defaults now a) (drop k buffer) (drop k B)"
    unfolding B_def by (intro list_all2_dropI insert_batch_rel)
  have same: "drop k B = drop k buffer" if "list_all has_default_keys buffer"
    using that insert_batch_id [of buffer outcome now db] unfolding B_def
    by (simp add: list_all_iff)
  consider (small) "int (length buffer) < batch_size cfg"
    | (flushed) "batch_size cfg \<le> int (length buffer)" "0 < n"
    | (failed) "batch_size cfg \<le> int (length buffer)" "\<not> 0 < n"
    by linarith
  then have "(batch_calls db' = batch_calls db + 1) = (batch_size cfg \<le> int (length buffer)) \<and>
         (int (length buffer) < batch_size cfg \<longrightarrow> ok \<and> db' = db \<and> data_buffer c' = buffer) \<and>
         (batch_size cfg \<le> int (length buffer) \<and> ok \<longrightarrow> data_buffer c' = []) \<and>
         (\<not> ok \<longrightarrow>
            batch_size cfg \<le> int (length buffer) \<and>
            list_all2 (\<lambda>a b. b = a \<or> b = fill_defaults now a) (drop k buffer) (data_buffer c') \<and>
            (list_all has_default_keys buffer \<longrightarrow> data_buffer c' = drop k buffer))"
  proof cases
    case small
    have "(ok, c', db') = (True, c\<lparr>data_buffer := buffer\<rparr>, db)"
      using store_small [OF assms(1), of c cfg outcome now db] small assms(2)
      unfolding buffer_def by simp
    then have "ok" "db' = db" "data_buffer c' = buffer" by simp_all
    then show ?thesis using small by simp
  next
    case flushed
    have "(ok, c', db') = (True, c\<lparr>data_buffer := []\<rparr>, d)"
      using store_flushed [OF assms(1), of cfg c outcome now db] flushed assms(2)
      unfolding buffer_def n_def d_def by simp
    then have "ok" "db' = d" "data_buffer c' = []" by simp_all
    then show ?thesis using flushed calls by simp
  next
    case failed
    have "(ok, c', db') = (False, c\<lparr>data_buffer := drop k B\<rparr>, d)"
      using store_failed [OF assms(1), of cfg c outcome now db] failed assms(2)
      unfolding buffer_def n_def d_def B_def k_def by simp
    then have "\<not> ok" "db' = d" "data_buffer c' = drop k B" by simp_all
    then show ?thesis using failed calls rel same by simp
  qed
  then show ?thesis
    unfolding buffer_def k_def .
qed

theorem flush_trigger_witness:
  "[sensor_reading ''temperature'' 21 100, sensor_reading ''temperature'' 22 100] \<noteq> [] \<and>
   batch_size (small_daq 2 5) = 2 \<and>
   fst (store_readings (small_daq 2 5) DbOk 0 (new_client, empty_db)
     [sensor_reading ''temperature'' 21 100, sensor_reading ''temperature'' 22 100]) \<and>
   data_buffer (fst (snd (store_readings (small_daq 2 5) DbOk 0 (new_client, empty_db)
     [sensor_reading ''temperature'' 21 100, sensor_reading ''temperature'' 22 100]))) = [] \<and>
   batch_calls (snd (snd (store_readings (small_daq 2 5) DbOk 0 (new_client, empty_db)
     [sensor_reading ''temperature'' 21 100, sensor_reading ''temperature'' 22 100]))) = 1 \<and>
   \<not> fst (store_readings (small_daq 2 5) ExecFails 0 (new_client, empty_db)
     [sensor_reading ''temperature'' 21 100, sensor_reading ''temperature'' 22 100]) \<and>
   data_buffer (fst (snd (store_readings (small_daq 2 5) ExecFails 0 (new_client, empty_db)
     [sensor_reading ''temperature'' 21 100, sensor_reading ''temperature'' 22 100]))) =
     [sensor_reading ''temperature'' 21 100, sensor_reading ''temperature'' 22 100]"
proof -
  define rs where
    "rs = [sensor_reading ''temperature'' 21 100, sensor_reading ''temperature'' 22 100]"
  define S where "S = store_readings (small_daq 2 5) DbOk 0 (new_client, empty_db) rs"
  define F where "F = store_readings (small_daq 2 5) ExecFails 0 (new_client, empty_db) rs"
  have ne: "rs \<noteq> []" by (simp add: rs_def)
  have len: "int (length (data_buffer new_client @ rs)) = 2"
    by (simp add: rs_def new_client_def)
  have b: "batch_size (small_daq 2 5) = 2" "max_buffer_size (small_daq 2 5) = 5"
    by (simp_all add: small_daq_def)
  have keys: "list_all has_default_keys (data_buffer new_client @ rs)"
    by (simp add: rs_def new_client_def has_default_keys_def sensor_reading_def)
  have okS: "fst S"
    by (simp add: S_def rs_def small_daq_def default_daq_def new_client_def empty_db_def
          store_readings_def insert_batch_readings_def has_row_keys_def sensor_reading_def
          Let_def)
  have noF: "\<not> fst F"
    by (simp add: F_def rs_def small_daq_def default_daq_def new_client_def empty_db_def
          store_readings_def insert_batch_readings_def has_row_keys_def sensor_reading_def
          Let_def)
  have len': "int (length (data_buffer new_client)) + int (length rs) = 2"
    using len by simp
  have eqS: "store_readings (small_daq 2 5) DbOk 0 (new_client, empty_db) rs =
      (fst S, fst (snd S), snd (snd S))"
    by (simp add: S_def)
  have eqF: "store_readings (small_daq 2 5) ExecFails 0 (new_client, empty_db) rs =
      (fst F, fst (snd F), snd (snd F))"
    by (simp add: F_def)
  have s: "batch_calls (snd (snd S)) = batch_calls empty_db + 1 \<and> data_buffer (fst (snd S)) = []"
    using flush_trigger [OF ne eqS] okS by (simp add: len' b)
  have f: "data_buffer (fst (snd F)) = data_buffer new_client @ rs"
    using flush_trigger [OF ne eqF] noF keys by (simp add: len' b)
  show ?thesis
    unfolding rs_def [symmetric] S_def [symmetric] F_def [symmetric]
    using ne b okS noF s f by (simp add: empty_db_def new_client_def)
qed

text \<open>
  The claim C5 as stated fails: a call with an empty list of readings returns at once.
  After a failed insert has left two readings in the buffer, with a batch size of 2, such
  a call does not call the batch insert a second time, and the buffer keeps its readings.
\<close>

theorem flush_trigger_counterexample:
  "batch_size (small_daq 2 5) = 2 \<and>
   length (data_buffer (fst (snd
     (store_readings (small_daq 2 5) ConnFails 0 (new_client, empty_db)
        [sensor_reading ''temperature'' 21 100, sensor_reading ''temperature'' 22 100])))) = 2 \<and>
   batch_calls (snd (snd
     (store_readings (small_daq 2 5) ConnFails 0 (new_client, empty_db)
        [sensor_reading ''temperature'' 21 100, sensor_reading ''temperature'' 22 100]))) = 1 \<and>
   batch_calls (snd (snd
     (store_readings (small_daq 2 5) DbOk 1
        (snd (store_readings (small_daq 2 5) ConnFails 0 (new_client, empty_db)
           [sensor_reading ''temperature'' 21 100, sensor_reading ''temperature'' 22 100]))
        []))) = 1 \<and>
   length (data_buffer (fst (snd
     (store_readings (small_daq 2 5) DbOk 1
        (snd (store_readings (small_daq 2 5) ConnFails 0 (new_client, empty_db)
           [sensor_reading ''temperature'' 21 100, sensor_reading ''temperature'' 22 100]))
        [])))) = 2"
  by (simp add: small_daq_def default_daq_def new_client_def empty_db_def
        store_readings_def insert_batch_readings_def Let_def)

section \<open>Rapid changes\<close>

text \<open>
  What \<open>_detect_rapid_change\<close> computes from a history: a change is reported when the
  values of the sensor type among the last 10 entries are at least two and the current
  value differs from the last of them by more than the threshold.
\<close>

lemma detect_rapid_change_eq:
  assumes "sensor_type r = Some st" and "rvalue r = Some v" and "runit r = Some u"
    and "history_values (py_slice_from (- 10) history) st = Inr previous"
  shows "detect_rapid_change history r =
           Inr (if 2 \<le> length previous \<and> thresholds st < \<bar>v - last previous\<bar>
                then Some (\<bar>v - last previous\<bar>, u) else None)"
  using assms by (simp add: detect_rapid_change_def Let_def)

text \<open>
  In a cycle \<open>detect_anomalies\<close> runs after \<open>process_readings\<close>, which has appended the
  readings of the cycle to the history. The last value of a sensor type in the history
  is then the value of the reading itself, when no later reading of the cycle has the same
  sensor type, as is the case when the readings come from \<open>read_sensor_data\<close>: the
  difference is 0 and no rapid change is reported.
\<close>

lemma thresholds_pos: "0 < thresholds st"
  by (simp add: thresholds_def)

lemma history_values_no_match:
  "\<forall>z \<in> set zs. sensor_type z \<noteq> Some st \<Longrightarrow> history_values zs st = Inr []"
  by (induction zs) auto

lemma history_values_last_match:
  assumes "sensor_type p = Some st" and "rvalue p = Some v"
    and "\<forall>z \<in> set zs. sensor_type z \<noteq> Some st"
  shows "history_values (xs @ p # zs) st = Inr vs \<Longrightarrow> vs \<noteq> [] \<and> last vs = v"
proof (induction xs arbitrary: vs)
  case Nil
  then show ?case
    using assms history_values_no_match [OF assms(3)] by auto
next
  case (Cons x xs)
  show ?case
  proof (cases "sensor_type x = Some st")
    case False
    then show ?thesis using Cons by simp
  next
    case True
    then obtain w ws where w: "rvalue x = Some w" "history_values (xs @ p # zs) st = Inr ws"
      "vs = w # ws"
      using Cons.prems by (auto split: option.splits sum.splits)
    then have "ws \<noteq> [] \<and> last ws = v" using Cons.IH by blast
    then show ?thesis using w by simp
  qed
qed

lemma detect_rapid_change_same_value:
  assumes "sensor_type r = Some st" and "rvalue r = Some v"
    and "\<And>vs. history_values (py_slice_from (- 10) history) st = Inr vs \<Longrightarrow>
           vs = [] \<or> last vs = v"
  shows "detect_rapid_change history r \<noteq> Inr (Some x)"
proof (cases "history_values (py_slice_from (- 10) history) st")
  case (Inl e)
  then show ?thesis using assms(1,2) by (simp add: detect_rapid_change_def)
next
  case (Inr vs)
  then have "vs = [] \<or> last vs = v" using assms(3) by blast
  then show ?thesis
    using assms(1,2) Inr thresholds_pos [of st]
    by (auto simp: detect_rapid_change_def Let_def not_less)
qed

lemma process_one_type_value:
  "process_one history now r = Inr p \<Longrightarrow> sensor_type p = sensor_type r \<and> rvalue p = rvalue r"
  by (auto simp: process_one_def Let_def split: option.splits sum.splits if_splits)

lemma processed_or_original_type_value:
  "sensor_type (processed_or_original history now r) = sensor_type r \<and>
   rvalue (processed_or_original history now r) = rvalue r"
  using process_one_type_value [of history now r]
  by (cases "process_one history now r") (auto simp: processed_or_original_def)

lemma py_slice_from_neg:
  "0 < n \<Longrightarrow> py_slice_from (- int n) xs = drop (length xs - n) xs"
  by (simp add: py_slice_from_def nat_diff_distrib' of_nat_diff) 

lemma history_after_processing:
  "\<exists>d. py_slice_from (- 10) (data_history (snd (process_readings s clk readings))) =
        drop d (data_history s @ fst (process_readings s clk readings))"
proof -
  define h where "h = data_history s @ process_loop (data_history s) clk readings []"
  have a: "py_slice_from (- 1000) h = drop (length h - 1000) h"
    using py_slice_from_neg [of 1000 h] by simp
  have b: "py_slice_from (- 10) ys = drop (length ys - 10) ys" for ys :: "reading list"
    using py_slice_from_neg [of 10 ys] by simp
  have "data_history (snd (process_readings s clk readings)) = h \<or>
        data_history (snd (process_readings s clk readings)) = drop (length h - 1000) h"
    by (simp add: process_readings_def Let_def h_def [symmetric] a)
  then have "\<exists>d. py_slice_from (- 10) (data_history (snd (process_readings s clk readings))) =
      drop d h"
    unfolding b by (metis drop_drop)
  then show ?thesis
    by (simp add: h_def process_readings_def Let_def)
qed

lemma drop_around:
  "drop d (xs @ p # zs) = drop d xs @ p # zs \<or> set (drop d (xs @ p # zs)) \<subseteq> set zs"
proof (cases "d \<le> length xs")
  case True
  then show ?thesis by simp
next
  case False
  then have "drop d (xs @ p # zs) = drop (d - length xs - 1) zs"
    by (simp add: drop_Cons')
  then show ?thesis using set_drop_subset by metis
qed

lemma rapid_change_never_after_processing:
  assumes "i < length readings"
    and "sensor_type (readings ! i) = Some st" and "rvalue (readings ! i) = Some v"
    and "\<forall>j. i < j \<and> j < length readings \<longrightarrow> sensor_type (readings ! j) \<noteq> Some st"
  shows "detect_rapid_change (data_history (snd (process_readings s clk readings)))
           (fst (process_readings s clk readings) ! i) \<noteq> Inr (Some x)"
proof -
  define ps where "ps = fst (process_readings s clk readings)"
  have ps: "ps = process_loop (data_history s) clk readings []"
    by (simp add: ps_def process_readings_def Let_def)
  have len: "length ps = length readings"
    using process_loop_nth [of "data_history s" clk readings "[]"] by (simp add: ps)
  have nth: "sensor_type (ps ! j) = sensor_type (readings ! j) \<and> rvalue (ps ! j) = rvalue (readings ! j)"
    if "j < length readings" for j
    using process_loop_nth [of "data_history s" clk readings "[]"] that
    by (simp add: ps processed_or_original_type_value)
  define p where "p = ps ! i"
  have pt: "sensor_type p = Some st" "rvalue p = Some v"
    using nth [OF assms(1)] assms(2,3) by (simp_all add: p_def)
  have split: "ps = take i ps @ p # drop (Suc i) ps"
    using assms(1) len by (simp add: p_def id_take_nth_drop)
  have post: "\<forall>z \<in> set (drop (Suc i) ps). sensor_type z \<noteq> Some st"
  proof
    fix z assume "z \<in> set (drop (Suc i) ps)"
    then obtain k where k: "k < length (drop (Suc i) ps)" "z = drop (Suc i) ps ! k"
      by (auto simp: in_set_conv_nth)
    then have j: "Suc i + k < length readings" "z = ps ! (Suc i + k)"
      using len by auto
    then have "sensor_type z = sensor_type (readings ! (Suc i + k))"
      using nth by simp
    then show "sensor_type z \<noteq> Some st"
      using assms(4) j(1) by simp
  qed
  obtain d where d: "py_slice_from (- 10) (data_history (snd (process_readings s clk readings))) =
      drop d (data_history s @ ps)"
    using history_after_processing [of s clk readings] unfolding ps_def by blast
  have h: "data_history s @ ps = (data_history s @ take i ps) @ p # drop (Suc i) ps"
    using split by simp
  have last: "vs = [] \<or> last vs = v"
    if vs: "history_values (py_slice_from (- 10)
               (data_history (snd (process_readings s clk readings)))) st = Inr vs" for vs
  proof -
    consider (keep) "drop d (data_history s @ ps) =
          drop d (data_history s @ take i ps) @ p # drop (Suc i) ps"
      | (gone) "set (drop d (data_history s @ ps)) \<subseteq> set (drop (Suc i) ps)"
      using drop_around [of d "data_history s @ take i ps" p "drop (Suc i) ps"] h by metis
    then show ?thesis
    proof cases
      case keep
      then show ?thesis
        using history_values_last_match [OF pt post, of "drop d (data_history s @ take i ps)" vs]
          vs d by simp
    next
      case gone
      then have "\<forall>z \<in> set (drop d (data_history s @ ps)). sensor_type z \<noteq> Some st"
        using post by blast
      then show ?thesis
        using history_values_no_match [of "drop d (data_history s @ ps)" st] vs d by simp
    qed
  qed
  show ?thesis
    unfolding ps_def [symmetric] p_def [symmetric]
    by (rule detect_rapid_change_same_value [OF pt]) (rule last)
qed

text \<open>
  C1. The claim fails on the code. Three cycles acquire the temperatures 21, 20 and 26
  from one sensor, with the default configuration. Before the third cycle the history
  holds the temperatures 21 and 20, and the difference of 26 and 20 exceeds the threshold
  5; the third cycle raises a \<open>HIGH_DEVIATION\<close> anomaly and no \<open>RAPID_CHANGE\<close> anomaly.
\<close>

theorem rapid_change_missed_in_cycle:
  "values_of_type
     (data_history (daq (cycle_sequence default_daq
        [one_poll 21 DbOk, one_poll 20 DbOk] connected_system)))
     ''temperature'' = [21, 20] \<and>
   thresholds ''temperature'' < \<bar>26 - 20\<bar> \<and>
   map anomaly_type
     (anomaly_buffer (daq (cycle_sequence default_daq
        [one_poll 21 DbOk, one_poll 20 DbOk, one_poll 26 DbOk] connected_system))) =
     [''HIGH_DEVIATION''] \<and>
   anomalies_detected (stats (daq (cycle_sequence default_daq
        [one_poll 21 DbOk, one_poll 20 DbOk, one_poll 26 DbOk] connected_system))) = 1"
  by (simp add: acquisition_cycle_def one_poll_def connected_system_def new_daq_def
        new_client_def empty_db_def default_daq_def read_sensor_data_def
        List.map_filter_simps validate_readings_def validate_one_def quality_of_def
        sensor_reading_def process_readings_def process_one_def
        calculate_moving_average_def py_slice_from_def detect_anomalies_def detect_one_def
        tagged_anomaly_def deviation_anomaly_def rapid_change_anomaly_def
        detect_rapid_change_def anomaly_base_def thresholds_def appended_def
        store_readings_def update_statistics_def maintenance_tasks_def count_cycle_def
        count_successful_def count_failed_def Let_def values_of_type_def)

section \<open>The main loop and its failure counter\<close>

lemma read_sensor_data_buffer:
  "data_buffer (snd (read_sensor_data c ps)) = data_buffer c"
  by (simp add: read_sensor_data_def Let_def)

lemma validate_readings_Nil: "validate_readings cfg [] = []"
  by (simp add: validate_readings_def)

lemma has_row_keys_row_of: "has_row_keys (row_of r) = has_row_keys r"
  by (simp add: has_row_keys_def row_of_def)

lemma processed_or_original_keys:
  "has_row_keys (processed_or_original history now r) = has_row_keys r"
proof (cases "process_one history now r")
  case (Inl e)
  then show ?thesis by (simp add: processed_or_original_def)
next
  case (Inr p)
  then have "row_of p = row_of r"
    using process_one_keeps by blast
  then have "has_row_keys p = has_row_keys r"
    using has_row_keys_row_of [of p] has_row_keys_row_of [of r] by simp
  then show ?thesis using Inr by (simp add: processed_or_original_def)
qed

lemma process_loop_keys:
  "list_all has_row_keys (process_loop history clk rs []) = list_all has_row_keys rs"
proof -
  have n: "length (process_loop history clk rs []) = length rs"
    using process_loop_nth [of history clk rs "[]"] by simp
  have e: "has_row_keys (process_loop history clk rs [] ! i) = has_row_keys (rs ! i)"
    if "i < length rs" for i
    using process_loop_nth [of history clk rs "[]"] that
    by (simp add: processed_or_original_keys)
  show ?thesis
    using n e by (simp add: list_all_length)
qed

lemma process_readings_fst:
  "fst (process_readings s clk rs) = process_loop (data_history s) clk rs []"
  by (simp add: process_readings_def Let_def)

lemma store_readings_success:
  assumes "readings \<noteq> []"
  shows "fst (store_readings cfg outcome now (c, db) readings) =
           (\<not> storage_fails cfg outcome (data_buffer c @ readings))"
proof -
  have ne: "data_buffer c @ readings \<noteq> []" using assms by simp
  have cnt: "(0 < fst (insert_batch_readings outcome now db (data_buffer c @ readings))) =
      (outcome = DbOk \<and> list_all has_row_keys (data_buffer c @ readings))"
    using ne by (simp only: insert_batch_count) auto
  show ?thesis
  proof (cases "int (length (data_buffer c @ readings)) < batch_size cfg")
    case True
    then show ?thesis
      using store_small [OF assms True] by (simp add: storage_fails_def)
  next
    case False
    then have big: "batch_size cfg \<le> int (length (data_buffer c @ readings))" by simp
    show ?thesis
    proof (cases "0 < fst (insert_batch_readings outcome now db (data_buffer c @ readings))")
      case True
      then show ?thesis
        using store_flushed [OF assms big True] cnt by (simp add: storage_fails_def)
    next
      case False
      then show ?thesis
        using store_failed [OF assms big False] cnt big by (simp add: storage_fails_def)
    qed
  qed
qed

lemma acquisition_cycle_success:
  "fst (acquisition_cycle cfg env sy) =
     (\<not> fault env \<and>
      fst (read_sensor_data (client sy) (polls env)) \<noteq> [] \<and>
      validate_readings cfg (fst (read_sensor_data (client sy) (polls env))) \<noteq> [] \<and>
      \<not> storage_fails cfg (batch_db env)
          (data_buffer (client sy) @
           validate_readings cfg (fst (read_sensor_data (client sy) (polls env)))))"
proof -
  obtain readings c1 where rd: "read_sensor_data (client sy) (polls env) = (readings, c1)"
    by (cases "read_sensor_data (client sy) (polls env)") auto
  have buf: "data_buffer c1 = data_buffer (client sy)"
    using read_sensor_data_buffer [of "client sy" "polls env"] rd by simp
  define validated where "validated = validate_readings cfg readings"
  obtain processed s1 where
    pr: "process_readings (count_cycle (daq sy)) (clock env) validated = (processed, s1)"
    by (cases "process_readings (count_cycle (daq sy)) (clock env) validated") auto
  obtain anomalies s2 where de: "detect_anomalies s1 processed = (anomalies, s2)"
    by (cases "detect_anomalies s1 processed") auto
  obtain s3 db1 where
    ha: "(if anomalies \<noteq> []
          then handle_anomalies cfg (anomaly_db env) (s2, dbase sy) anomalies
          else (s2, dbase sy)) = (s3, db1)"
    by (cases "(if anomalies \<noteq> []
          then handle_anomalies cfg (anomaly_db env) (s2, dbase sy) anomalies
          else (s2, dbase sy))") auto
  obtain ok c2 db2 where
    st: "store_readings cfg (batch_db env) (store_time env) (c1, db1) processed = (ok, c2, db2)"
    by (cases "store_readings cfg (batch_db env) (store_time env) (c1, db1) processed") auto
  have cyc: "fst (acquisition_cycle cfg env sy) =
      (\<not> fault env \<and> readings \<noteq> [] \<and> validated \<noteq> [] \<and> ok)"
    by (simp add: acquisition_cycle_def Let_def rd validated_def [symmetric] pr de ha st)
  have pl: "processed = process_loop (data_history (count_cycle (daq sy))) (clock env) validated []"
    using process_readings_fst [of "count_cycle (daq sy)" "clock env" validated] pr by simp
  have len: "length processed = length validated"
    using process_loop_nth [of "data_history (count_cycle (daq sy))" "clock env" validated "[]"]
    by (simp add: pl)
  have keys: "list_all has_row_keys processed = list_all has_row_keys validated"
    unfolding pl by (rule process_loop_keys)
  have sf: "storage_fails cfg (batch_db env) (data_buffer c1 @ processed) =
      storage_fails cfg (batch_db env) (data_buffer (client sy) @ validated)"
    using len keys by (simp add: storage_fails_def buf)
  have ok: "ok = (\<not> storage_fails cfg (batch_db env) (data_buffer (client sy) @ validated))"
    if "validated \<noteq> []"
  proof -
    have "processed \<noteq> []" using that len by auto
    then show ?thesis
      using store_readings_success [of processed cfg "batch_db env" "store_time env" c1 db1]
        st sf by simp
  qed
  show ?thesis
    using cyc ok by (auto simp: rd validated_def)
qed

lemma run_iteration_cycle:
  assumes "\<not> paused (daq (sys st))"
  shows "consecutive_failures (run_iteration cfg (Iterate env) st) =
           (if fst (acquisition_cycle cfg env (sys st)) then 0
            else if max_consecutive_failures \<le> consecutive_failures st + 1 then 0
            else consecutive_failures st + 1) \<and>
         slept (run_iteration cfg (Iterate env) st) =
           slept st @
           (if \<not> fst (acquisition_cycle cfg env (sys st)) \<and>
               max_consecutive_failures \<le> consecutive_failures st + 1
            then [30] else []) @
           [acquisition_interval cfg] \<and>
         sys (run_iteration cfg (Iterate env) st) = snd (acquisition_cycle cfg env (sys st))"
proof -
  obtain ok sy where ac: "acquisition_cycle cfg env (sys st) = (ok, sy)"
    by (cases "acquisition_cycle cfg env (sys st)") auto
  show ?thesis
    using assms by (simp add: run_iteration_def ac Let_def)
qed

text \<open>
  C6, as amended. When the system is not paused, one pass of the main loop runs a cycle.
  The cycle fails exactly when an exception reaches its handler, no reading was
  acquired, no reading passed validation, or the storage step failed. A cycle that
  succeeds sets the counter of consecutive failures to 0. A cycle that fails increments
  it; when it reaches 5 the loop sleeps 30 seconds and sets it to 0. After that the loop
  sleeps for the acquisition interval.
\<close>

theorem failure_governor:
  assumes "\<not> paused (daq (sys st))"
  shows "fst (acquisition_cycle cfg env (sys st)) =
           (\<not> fault env \<and>
            fst (read_sensor_data (client (sys st)) (polls env)) \<noteq> [] \<and>
            validate_readings cfg (fst (read_sensor_data (client (sys st)) (polls env))) \<noteq> [] \<and>
            \<not> storage_fails cfg (batch_db env)
                (data_buffer (client (sys st)) @
                 validate_readings cfg (fst (read_sensor_data (client (sys st)) (polls env))))) \<and>
         consecutive_failures (run_iteration cfg (Iterate env) st) =
           (if fst (acquisition_cycle cfg env (sys st)) then 0
            else if 5 \<le> consecutive_failures st + 1 then 0
            else consecutive_failures st + 1) \<and>
         slept (run_iteration cfg (Iterate env) st) =
           slept st @
           (if \<not> fst (acquisition_cycle cfg env (sys st)) \<and> 5 \<le> consecutive_failures st + 1
            then [30] else []) @
           [acquisition_interval cfg]"
  using acquisition_cycle_success [of cfg env "sys st"] run_iteration_cycle [OF assms, of cfg env]
  by (simp add: max_consecutive_failures_def)

theorem failure_governor_witness:
  "\<not> paused (daq (sys (loop_state 4))) \<and>
   consecutive_failures (run_iteration (small_daq 1 5) (Iterate (one_poll 25 ConnFails))
     (loop_state 4)) = 0 \<and>
   slept (run_iteration (small_daq 1 5) (Iterate (one_poll 25 ConnFails)) (loop_state 4)) =
     [30, 5] \<and>
   consecutive_failures (run_iteration (small_daq 1 5) (Iterate (one_poll 25 DbOk))
     (loop_state 3)) = 0 \<and>
   slept (run_iteration (small_daq 1 5) (Iterate (one_poll 25 DbOk)) (loop_state 3)) = [5]"
proof -
  have p: "\<not> paused (daq (sys (loop_state n)))" for n
    by (simp add: loop_state_def connected_system_def new_daq_def)
  have v: "validate_readings (small_daq 1 5) [sensor_reading ''temperature'' 25 100] =
      [sensor_reading ''temperature'' 25 100]"
    by (simp add: validate_readings_def validate_one_def small_daq_def default_daq_def
          sensor_reading_def quality_of_def)
  have r: "fst (read_sensor_data (client (sys (loop_state n))) (polls (one_poll 25 outcome))) =
      [sensor_reading ''temperature'' 25 100]" for n outcome
    by (simp add: loop_state_def connected_system_def new_client_def one_poll_def
          read_sensor_data_def List.map_filter_simps)
  have b: "data_buffer (client (sys (loop_state n))) = []" for n
    by (simp add: loop_state_def connected_system_def new_client_def)
  have k: "has_row_keys (sensor_reading ''temperature'' 25 100)"
    by (simp add: has_row_keys_def sensor_reading_def)
  have e: "fault (one_poll 25 outcome) = False" "batch_db (one_poll 25 outcome) = outcome"
    for outcome
    by (simp_all add: one_poll_def)
  have c: "consecutive_failures (loop_state n) = n" "slept (loop_state n) = []" for n
    by (simp_all add: loop_state_def)
  have i: "batch_size (small_daq 1 5) = 1" "acquisition_interval (small_daq 1 5) = 5"
    by (simp_all add: small_daq_def default_daq_def)
  have f: "consecutive_failures (run_iteration (small_daq 1 5) (Iterate (one_poll 25 ConnFails))
     (loop_state 4)) = 0 \<and>
     slept (run_iteration (small_daq 1 5) (Iterate (one_poll 25 ConnFails)) (loop_state 4)) =
     [30, 5]"
    using failure_governor [OF p [of 4], of "small_daq 1 5" "one_poll 25 ConnFails"]
    by (simp add: r v b k e c i storage_fails_def)
  have s: "consecutive_failures (run_iteration (small_daq 1 5) (Iterate (one_poll 25 DbOk))
     (loop_state 3)) = 0 \<and>
     slept (run_iteration (small_daq 1 5) (Iterate (one_poll 25 DbOk)) (loop_state 3)) = [5]"
    using failure_governor [OF p [of 3], of "small_daq 1 5" "one_poll 25 DbOk"]
    by (simp add: r v b k e c i storage_fails_def)
  show ?thesis using p f s by simp
qed

text \<open>
  The claim C6 as stated fails: a cycle that acquires a reading which passes validation,
  and whose batch insert fails, increments the counter.
\<close>

theorem failure_governor_counterexample:
  "fst (read_sensor_data (client (sys (loop_state 0))) (polls (one_poll 25 ConnFails))) =
     [sensor_reading ''temperature'' 25 100] \<and>
   validate_readings (small_daq 1 5)
     (fst (read_sensor_data (client (sys (loop_state 0))) (polls (one_poll 25 ConnFails)))) =
     [sensor_reading ''temperature'' 25 100] \<and>
   consecutive_failures (loop_state 0) = 0 \<and>
   consecutive_failures (run_iteration (small_daq 1 5) (Iterate (one_poll 25 ConnFails))
     (loop_state 0)) = 1"
proof -
  have p: "\<not> paused (daq (sys (loop_state 0)))"
    by (simp add: loop_state_def connected_system_def new_daq_def)
  have r: "fst (read_sensor_data (client (sys (loop_state 0))) (polls (one_poll 25 ConnFails))) =
      [sensor_reading ''temperature'' 25 100]"
    by (simp add: loop_state_def connected_system_def new_client_def one_poll_def
          read_sensor_data_def List.map_filter_simps)
  have v: "validate_readings (small_daq 1 5) [sensor_reading ''temperature'' 25 100] =
      [sensor_reading ''temperature'' 25 100]"
    by (simp add: validate_readings_def validate_one_def small_daq_def default_daq_def
          sensor_reading_def quality_of_def)
  have b: "data_buffer (client (sys (loop_state 0))) = []"
    by (simp add: loop_state_def connected_system_def new_client_def)
  have e: "fault (one_poll 25 ConnFails) = False" "batch_db (one_poll 25 ConnFails) = ConnFails"
    by (simp_all add: one_poll_def)
  have i: "batch_size (small_daq 1 5) = 1"
    by (simp add: small_daq_def)
  have c: "consecutive_failures (loop_state 0) = 0"
    by (simp add: loop_state_def)
  have "\<not> fst (acquisition_cycle (small_daq 1 5) (one_poll 25 ConnFails) (sys (loop_state 0)))"
    by (simp add: acquisition_cycle_success r v b e i storage_fails_def)
  then have "consecutive_failures (run_iteration (small_daq 1 5) (Iterate (one_poll 25 ConnFails))
     (loop_state 0)) = 1"
    using run_iteration_cycle [OF p, of "small_daq 1 5" "one_poll 25 ConnFails"] c
    by (simp add: max_consecutive_failures_def)
  then show ?thesis using r v c by simp
qed

end
